theory Spec2Isabelle
  imports Complex_Main
begin

section \<open>Numbers, vectors and the collaborators of the extrusion filter\<close>

text \<open>
  The filter of \<^verbatim>\<open>ExtrudeGeometryFilter.cpp\<close> computes with C++ \<^verbatim>\<open>double\<close> and stores
  its results in OSG arrays of \<^verbatim>\<open>float\<close>.  The embedding idealises both as \<^typ>\<open>real\<close>:
  rounding, overflow to infinity and the narrowing on a store are not modelled.  The one
  place where the reals have no value for what the code computes is a division by zero
  (IEEE gives an infinity or a NaN there, without a trap).  A quantity that is the
  result of a division is therefore a \<^typ>\<open>real option\<close>: \<open>Some r\<close> is the finite
  value \<open>r\<close>, \<open>None\<close> is an infinity or a NaN, the value that the code computes when a
  zero divisor was met on the way.  It is a value like any other, not a failure.

  The counters of the source are \<^verbatim>\<open>unsigned\<close> and \<^verbatim>\<open>int\<close>; they index arrays that were
  allocated with \<open>pointCount\<close> and \<open>2 * pointCount\<close> entries and never exceed these sizes,
  so they are natural numbers here (shapes of \<open>2^31\<close> points and more are outside the
  model).
\<close>

type_synonym fp = "real option"

definition fdiv :: "fp \<Rightarrow> fp \<Rightarrow> fp" where
  "fdiv a b =
     (case a of None \<Rightarrow> None
      | Some x \<Rightarrow> (case b of None \<Rightarrow> None
                   | Some y \<Rightarrow> if y = 0 then None else Some (x / y)))"

definition fneg :: "fp \<Rightarrow> fp" where
  "fneg a = (case a of None \<Rightarrow> None | Some x \<Rightarrow> Some (- x))"

text \<open>\<^verbatim>\<open>osg::round\<close> of \<^verbatim>\<open><osg/Math>\<close>, a function of the OSG library:
  \<^verbatim>\<open>v >= 0.0 ? floor(v + 0.5) : ceil(v - 0.5)\<close>.\<close>

definition osg_round :: "real \<Rightarrow> real" where
  "osg_round v = (if v \<ge> 0 then of_int \<lfloor>v + 1 / 2\<rfloor> else of_int \<lceil>v - 1 / 2\<rceil>)"

text \<open>\<^verbatim>\<open>DBL_MAX\<close> of \<^verbatim>\<open><cfloat>\<close>: the largest finite double.\<close>

definition DBL_MAX :: real where
  "DBL_MAX = (2 ^ 53 - 1) * 2 ^ 971"

text \<open>\<^verbatim>\<open>atan2\<close> of the C library, as the principal argument of the point \<open>(x, y)\<close>
  (the signed zeros of IEEE are not modelled; \<open>atan2 0 0 = 0\<close>).\<close>

definition atan2 :: "real \<Rightarrow> real \<Rightarrow> real" where
  "atan2 y x =
     (if x > 0 then arctan (y / x)
      else if x < 0 then (if y \<ge> 0 then arctan (y / x) + pi else arctan (y / x) - pi)
      else if y > 0 then pi / 2
      else if y < 0 then - (pi / 2)
      else 0)"

datatype vec3 = Vec3 (vx: real) (vy: real) (vz: real)

datatype vec2 = Vec2 (tu: fp) (tv: fp)

type_synonym vec4 = "real \<times> real \<times> real \<times> real"

definition vsub :: "vec3 \<Rightarrow> vec3 \<Rightarrow> vec3" where
  "vsub a b = Vec3 (vx a - vx b) (vy a - vy b) (vz a - vz b)"

definition length2 :: "vec3 \<Rightarrow> real" where
  "length2 v = vx v * vx v + vy v * vy v + vz v * vz v"

definition vlength :: "vec3 \<Rightarrow> real" where
  "vlength v = sqrt (length2 v)"

text \<open>The default-constructed elements of an OSG array.\<close>

definition zero3 :: vec3 where
  "zero3 = Vec3 0 0 0"

definition zero2 :: vec2 where
  "zero2 = Vec2 (Some 0) (Some 0)"

subsection \<open>Input geometry\<close>

datatype GeomType =
  TYPE_UNKNOWN | TYPE_POINTSET | TYPE_LINESTRING | TYPE_RING | TYPE_POLYGON | TYPE_MULTI

text \<open>
  A \<^verbatim>\<open>Geometry\<close> of osgEarthSymbology (declared outside this file): its component type,
  its own vertex vector, and the sequence of parts that a \<^verbatim>\<open>ConstGeometryIterator\<close>
  yields for it (for a polygon the outer ring and then the holes).
\<close>

record Geometry =
  componentType :: GeomType
  asVector :: "vec3 list"
  parts :: "vec3 list list"

text \<open>Modelled from the spec: \<^verbatim>\<open>Geometry::getTotalPointCount\<close> is not in this file; the
  spec has two wall vertices "per input point", one roof vertex "per input point": the
  count is the number of points of all parts.\<close>

definition getTotalPointCount :: "Geometry \<Rightarrow> nat" where
  "getTotalPointCount input = sum_list (map length (parts input))"

type_synonym Segment = "vec3 \<times> vec3"

text \<open>Modelled from the spec: \<^verbatim>\<open>ConstSegmentIterator\<close> is not in this file; the spec has
  it "scan every edge (segment between consecutive points, including the closing edge)"
  and leaves a shape of fewer than two points to the caller.\<close>

definition ConstSegmentIterator :: "vec3 list \<Rightarrow> bool \<Rightarrow> Segment list" where
  "ConstSegmentIterator vs forceClosedLoop =
     (if length vs < 2 then []
      else zip vs (tl vs) @ (if forceClosedLoop then [(last vs, hd vs)] else []))"

datatype TexEnvMode = DECAL | MODULATE | BLEND | REPLACE | ADD

record SkinResource =
  imageWidth :: real
  imageHeight :: real
  isTiled :: bool
  texEnvMode :: TexEnvMode

subsection \<open>Symbols, styles and the context\<close>

text \<open>
  The symbol classes of osgEarthSymbology, by the members that the filter reads.  A
  numeric or string expression is represented by its text; an \<^verbatim>\<open>optional\<close> member and
  a pointer that may be null are options.
\<close>

datatype HeightReference = HEIGHT_REFERENCE_Z | HEIGHT_REFERENCE_MSL

record ExtrusionSymbol =
  es_heightExpression :: "string option"
  es_height :: real
  es_heightReference :: HeightReference
  es_wallStyleName :: "string option"
  es_roofStyleName :: "string option"
  es_flatten :: bool

record SkinSymbol =
  sk_libraryName :: "string option"
  sk_objectHeight :: "real option"

record PolygonSymbol =
  fill_color :: vec4

record Style =
  st_extrusion :: "ExtrusionSymbol option"
  st_skin :: "SkinSymbol option"
  st_polygon :: "PolygonSymbol option"

text \<open>A resource library answers \<^verbatim>\<open>getSkins\<close> with the candidates for a query symbol.\<close>

type_synonym ResourceLibrary = "SkinSymbol \<Rightarrow> SkinResource list"

record StyleSheet =
  getStyle :: "string \<Rightarrow> Style option"
  getResourceLibrary :: "string \<Rightarrow> ResourceLibrary option"

text \<open>What the filter reads of its \<^verbatim>\<open>FilterContext\<close>: whether the map is geocentric,
  the conversion \<^verbatim>\<open>transformToECEF\<close> of the extent's spatial reference, and the style
  sheet of the session (a null pointer is \<open>None\<close>).  The field \<open>world2local\<close> stands for
  the product with the matrix \<^verbatim>\<open>_world2local\<close> of the filter, which \<^verbatim>\<open>extrudeGeometry\<close>
  reads next to the context.\<close>

record FilterContext =
  isGeocentric :: bool
  transformToECEF :: "vec3 \<Rightarrow> vec3"
  world2local :: "vec3 \<Rightarrow> vec3"
  styles :: "StyleSheet option"

section \<open>getApparentRotation\<close>

definition longer :: "Segment \<times> real \<Rightarrow> Segment \<Rightarrow> Segment \<times> real" where
  "longer acc s =
     (let len2 = length2 (vsub (snd s) (fst s))
      in if len2 > snd acc then (s, len2) else acc)"

definition getApparentRotation :: "vec3 list \<Rightarrow> real" where
  "getApparentRotation geom =
     (let n = fst (foldl longer ((zero3, zero3), 0) (ConstSegmentIterator geom True));
          p1 = (if vx (fst n) < vx (snd n) then fst n else snd n);
          p2 = (if vx (fst n) < vx (snd n) then snd n else fst n)
      in atan2 (vy p2 - vy p1) (vx p2 - vx p1))"

section \<open>extrudeGeometry\<close>

definition toECEF :: "vec3 \<Rightarrow> FilterContext \<Rightarrow> vec3" where
  "toECEF input cx = world2local cx (transformToECEF cx input)"

datatype PrimitiveSet =
  DrawElementsUInt (indices: "nat list")
  | DrawArrays (first: nat) (count: nat)

text \<open>
  The arrays and counters that \<^verbatim>\<open>extrudeGeometry\<close> allocates and mutates, under the names
  of its local variables.  \<open>verts\<close>, \<open>texcoords\<close> and \<open>colors\<close> are the arrays of the
  \<^verbatim>\<open>walls\<close> geometry, \<open>roofVerts\<close>, \<open>roofColors\<close> and \<open>topTexcoords\<close> those of \<^verbatim>\<open>roof\<close>,
  \<open>baseVerts\<close> that of \<^verbatim>\<open>base\<close>; an array that the source leaves a null pointer is
  \<open>None\<close>.  The three lists of primitive sets are those added to the three geometries:
  \<^verbatim>\<open>GL_TRIANGLES\<close> element lists for the walls, \<^verbatim>\<open>LINE_LOOP\<close> ranges for roof and base.
\<close>

record ExtrudeState =
  verts :: "vec3 list"
  texcoords :: "vec2 list option"
  colors :: "vec4 list option"
  roofVerts :: "vec3 list option"
  roofColors :: "vec4 list option"
  topTexcoords :: "vec2 list option"
  roofRotation :: real
  baseVerts :: "vec3 list option"
  wallVertPtr :: nat
  roofVertPtr :: nat
  baseVertPtr :: nat
  made_geom :: bool
  walls_primitiveSets :: "PrimitiveSet list"
  roof_primitiveSets :: "PrimitiveSet list"
  base_primitiveSets :: "PrimitiveSet list"

text \<open>The values that are fixed when the second pass starts.\<close>

record Locals =
  isPolygon :: bool
  flatten :: bool
  height :: real
  targetLen :: real
  minLoc :: vec3
  roof :: bool
  base :: bool
  hasWallSkin :: bool
  tex_width_m :: real
  tex_height_m :: real
  tex_repeats_y :: bool
  makeECEF :: bool
  cx :: FilterContext

subsection \<open>First pass: the bounds of the shape\<close>

record Bounds =
  b_targetLen :: real
  b_minLoc :: vec3
  b_maxLoc :: vec3

definition zfinder_point :: "real \<Rightarrow> Bounds \<Rightarrow> vec3 \<Rightarrow> Bounds" where
  "zfinder_point h b m_point =
     (let b1 = (if vz m_point + h > b_targetLen b
                then b\<lparr>b_targetLen := vz m_point + h\<rparr> else b);
          b2 = (if vz m_point < vz (b_minLoc b1) then b1\<lparr>b_minLoc := m_point\<rparr> else b1);
          b3 = (if vz m_point > vz (b_maxLoc b2) then b2\<lparr>b_maxLoc := m_point\<rparr> else b2)
      in b3)"

definition zfinder :: "real \<Rightarrow> vec3 list list \<Rightarrow> Bounds" where
  "zfinder h ps =
     foldl (\<lambda>b geom. foldl (zfinder_point h) b geom)
       \<lparr>b_targetLen = - DBL_MAX,
        b_minLoc = Vec3 DBL_MAX DBL_MAX DBL_MAX,
        b_maxLoc = Vec3 0 0 0\<rparr> ps"

subsection \<open>Second pass: one point\<close>

definition roofPt_of :: "Locals \<Rightarrow> vec3 \<Rightarrow> vec3" where
  "roofPt_of L basePt =
     (if flatten L then Vec3 (vx basePt) (vy basePt) (targetLen L)
      else Vec3 (vx basePt) (vy basePt) (vz basePt + height L))"

text \<open>The adjusted texture height: \<^verbatim>\<open>div = osg::round(maxHeight / tex_height_m)\<close>,
  \<^verbatim>\<open>if (div == 0) div = 1\<close>, \<^verbatim>\<open>tex_height_m_adj = maxHeight / div\<close>.\<close>

definition tex_div :: "real \<Rightarrow> real \<Rightarrow> fp" where
  "tex_div maxHeight th =
     (case fdiv (Some maxHeight) (Some th) of
        None \<Rightarrow> None
      | Some q \<Rightarrow> (let d = osg_round q in if d = 0 then Some 1 else Some d))"

definition tex_height_m_adj :: "Locals \<Rightarrow> fp" where
  "tex_height_m_adj L =
     (let maxHeight = targetLen L - vz (minLoc L)
      in fdiv (Some maxHeight) (tex_div maxHeight (tex_height_m L)))"

definition emitPoint ::
  "Locals \<Rightarrow> nat \<Rightarrow> bool \<Rightarrow> vec3 \<Rightarrow> ExtrudeState \<times> real \<times> nat list
     \<Rightarrow> ExtrudeState \<times> real \<times> nat list" where
  "emitPoint L wallPartPtr atEnd basePt acc =
     (case acc of (s, partLen, idx) \<Rightarrow>
      let roofPt = roofPt_of L basePt;
          p = wallVertPtr s;
          basePtOut = (if makeECEF L then toECEF basePt (cx L) else basePt);
          roofPtOut = (if makeECEF L then toECEF roofPt (cx L) else roofPt);
          s1 = (if base L
                then s\<lparr>baseVerts := map_option (\<lambda>a. a[baseVertPtr s := basePtOut]) (baseVerts s),
                       baseVertPtr := baseVertPtr s + 1\<rparr>
                else s);
          s2 = (if roof L
                then s1\<lparr>roofVerts := map_option (\<lambda>a. a[roofVertPtr s1 := roofPtOut]) (roofVerts s1),
                        roofVertPtr := roofVertPtr s1 + 1\<rparr>
                else s1);
          s3 = s2\<lparr>verts := (verts s2)[p := roofPtOut, p + 1 := basePtOut]\<rparr>;
          partLen' = partLen +
            (if wallVertPtr s3 > wallPartPtr
             then vlength (vsub (verts s3 ! p) (verts s3 ! (p - 2))) else 0);
          h = (if tex_repeats_y L
               then Some (- vlength (vsub (verts s3 ! p) (verts s3 ! (p + 1))))
               else fneg (tex_height_m_adj L));
          s4 = (if hasWallSkin L
                then s3\<lparr>texcoords := map_option
                         (\<lambda>t. t[p := Vec2 (fdiv (Some partLen') (Some (tex_width_m L))) (Some 0),
                                p + 1 := Vec2 (fdiv (Some partLen') (Some (tex_width_m L)))
                                              (fdiv h (tex_height_m_adj L))])
                         (texcoords s3)\<rparr>
                else s3);
          idx' = (if atEnd
                  then (if isPolygon L
                        then idx @ [wallVertPtr s4, wallVertPtr s4 + 1, wallPartPtr,
                                    wallVertPtr s4 + 1, wallPartPtr + 1, wallPartPtr]
                        else idx)
                  else idx @ [wallVertPtr s4, wallVertPtr s4 + 1, wallVertPtr s4 + 2,
                              wallVertPtr s4 + 1, wallVertPtr s4 + 3, wallVertPtr s4 + 2])
      in (s4\<lparr>wallVertPtr := wallVertPtr s4 + 2, made_geom := True\<rparr>, partLen', idx'))"

fun partLoop ::
  "Locals \<Rightarrow> nat \<Rightarrow> vec3 list \<Rightarrow> ExtrudeState \<times> real \<times> nat list
     \<Rightarrow> ExtrudeState \<times> real \<times> nat list" where
  "partLoop L wallPartPtr [] acc = acc"
| "partLoop L wallPartPtr (m # ms) acc =
     partLoop L wallPartPtr ms (emitPoint L wallPartPtr (ms = []) m acc)"

subsection \<open>Second pass: one part\<close>

text \<open>The loop \<^verbatim>\<open>for (int i = basePartPtr; i < len/2; i++) std::swap(bv[i],
  bv[basePartPtr + (len-1) - i])\<close>.\<close>

definition swap_at :: "'a list \<Rightarrow> nat \<Rightarrow> nat \<Rightarrow> 'a list" where
  "swap_at a i j = a[i := a ! j, j := a ! i]"

definition reverseBase :: "nat \<Rightarrow> nat \<Rightarrow> vec3 list \<Rightarrow> vec3 list" where
  "reverseBase basePartPtr len bv =
     foldl (\<lambda>a i. swap_at a i (basePartPtr + (len - 1) - i)) bv [basePartPtr ..< len div 2]"

definition extrudePart :: "Locals \<Rightarrow> ExtrudeState \<Rightarrow> vec3 list \<Rightarrow> ExtrudeState" where
  "extrudePart L s part =
     (let wallPartPtr = wallVertPtr s;
          roofPartPtr = roofVertPtr s;
          basePartPtr = baseVertPtr s;
          (s1, partLen, idx) = partLoop L wallPartPtr part (s, 0, []);
          s2 = s1\<lparr>walls_primitiveSets := walls_primitiveSets s1 @ [DrawElementsUInt idx]\<rparr>;
          s3 = (if roof L
                then s2\<lparr>roof_primitiveSets := roof_primitiveSets s2 @
                          [DrawArrays roofPartPtr (roofVertPtr s2 - roofPartPtr)]\<rparr>
                else s2);
          s4 = (if base L
                then (let len = baseVertPtr s3 - basePartPtr
                      in s3\<lparr>baseVerts := map_option (reverseBase basePartPtr len) (baseVerts s3),
                             base_primitiveSets := base_primitiveSets s3 @
                               [DrawArrays basePartPtr (baseVertPtr s3 - basePartPtr)]\<rparr>)
                else s3)
      in s4)"

subsection \<open>The function\<close>

definition initState ::
  "Geometry \<Rightarrow> bool \<Rightarrow> bool \<Rightarrow> vec4 \<Rightarrow> vec4 \<Rightarrow> SkinResource option \<Rightarrow> SkinResource option
     \<Rightarrow> ExtrudeState" where
  "initState input wantRoof wantBase wallColor roofColor wallSkin roofSkin =
     (let useColor = (case wallSkin of None \<Rightarrow> True | Some w \<Rightarrow> texEnvMode w \<noteq> DECAL);
          pointCount = getTotalPointCount input;
          numVerts = 2 * pointCount
      in \<lparr>verts = replicate numVerts zero3,
          texcoords = (if wallSkin \<noteq> None then Some (replicate numVerts zero2) else None),
          colors = (if useColor then Some [wallColor] else None),
          roofVerts = (if wantRoof then Some (replicate pointCount zero3) else None),
          roofColors = (if wantRoof then Some [roofColor] else None),
          topTexcoords = (if wantRoof \<and> roofSkin \<noteq> None
                          then Some (replicate pointCount zero2) else None),
          roofRotation = (if wantRoof \<and> roofSkin \<noteq> None
                          then getApparentRotation (asVector input) else 0),
          baseVerts = (if wantBase then Some (replicate pointCount zero3) else None),
          wallVertPtr = 0,
          roofVertPtr = 0,
          baseVertPtr = 0,
          made_geom = False,
          walls_primitiveSets = [],
          roof_primitiveSets = [],
          base_primitiveSets = []\<rparr>)"

definition mkLocals ::
  "Geometry \<Rightarrow> real \<Rightarrow> real \<Rightarrow> bool \<Rightarrow> bool \<Rightarrow> bool \<Rightarrow> SkinResource option
     \<Rightarrow> FilterContext \<Rightarrow> Locals" where
  "mkLocals input h heightOffset flat wantRoof wantBase wallSkin c =
     (let b = zfinder h (parts input)
      in \<lparr>isPolygon = (componentType input = TYPE_POLYGON),
          flatten = flat,
          height = h - heightOffset,
          targetLen = b_targetLen b - heightOffset,
          minLoc = b_minLoc b,
          roof = wantRoof,
          base = wantBase,
          hasWallSkin = (wallSkin \<noteq> None),
          tex_width_m = (case wallSkin of None \<Rightarrow> 1 | Some w \<Rightarrow> imageWidth w),
          tex_height_m = (case wallSkin of None \<Rightarrow> 1 | Some w \<Rightarrow> imageHeight w),
          tex_repeats_y = (case wallSkin of None \<Rightarrow> False | Some w \<Rightarrow> isTiled w),
          makeECEF = isGeocentric c,
          cx = c\<rparr>)"

text \<open>
  \<^verbatim>\<open>extrudeGeometry(input, height, heightOffset, flatten, walls, roof, base, wallColor,
  roofColor, wallSkin, roofSkin, cx)\<close>.  \<^verbatim>\<open>walls\<close> is always dereferenced and has no
  parameter here; \<open>wantRoof\<close> and \<open>wantBase\<close> say whether the pointers \<^verbatim>\<open>roof\<close> and
  \<^verbatim>\<open>base\<close> are non-null.  The result is the final state, whose field \<open>made_geom\<close> is the
  value returned.
\<close>

definition extrudeGeometry ::
  "Geometry \<Rightarrow> real \<Rightarrow> real \<Rightarrow> bool \<Rightarrow> bool \<Rightarrow> bool \<Rightarrow> vec4 \<Rightarrow> vec4
     \<Rightarrow> SkinResource option \<Rightarrow> SkinResource option \<Rightarrow> FilterContext \<Rightarrow> ExtrudeState" where
  "extrudeGeometry input h heightOffset flat wantRoof wantBase wallColor roofColor
       wallSkin roofSkin c =
     foldl (extrudePart (mkLocals input h heightOffset flat wantRoof wantBase wallSkin c))
       (initState input wantRoof wantBase wallColor roofColor wallSkin roofSkin)
       (parts input)"

section \<open>The filter: reset, process and push\<close>

text \<open>
  A drawable is an \<^verbatim>\<open>osg::Geometry\<close> by its arrays and primitive sets; a geode has a
  state set (a pointer, here an address, \<open>None\<close> for the null pointer) and drawables; the
  node that \<^verbatim>\<open>push\<close> returns is a plain group or a matrix transform, with the geodes as
  children.
\<close>

record Drawable =
  d_name :: string
  d_vertexArray :: "vec3 list"
  d_texCoordArray :: "vec2 list option"
  d_colorArray :: "vec4 list option"
  d_primitiveSets :: "PrimitiveSet list"
  d_dynamic :: bool

type_synonym StateSet = nat

record Geode =
  g_stateSet :: "StateSet option"
  g_drawables :: "Drawable list"

datatype Node =
  Group (children: "Geode list")
  | MatrixTransform "vec3 \<Rightarrow> vec3" (children: "Geode list")

text \<open>A feature, by what the filter asks of it: the parts that a
  \<^verbatim>\<open>GeometryIterator\<close> without hole traversal yields for its geometry, and an identity for
  the evaluation of expressions.  Such a part is a single geometry, whose type
  (\<^verbatim>\<open>getType\<close>) and component type are the same.\<close>

record Feature =
  fid :: nat
  f_parts :: "Geometry list"

text \<open>
  The code that the filter calls and that is not in this file, as parameters: the
  evaluation of expressions on a feature, the lookup of a state set in the resource
  cache, \<^verbatim>\<open>rand\<close> (by the number of the call), the opening of a polygon, the OSG
  smoothing visitor, tessellator and optimizer, the mesh consolidator, and
  \<^verbatim>\<open>computeLocalizers\<close> of the base class, which yields the two matrices.
\<close>

record Collaborators =
  evalNumeric :: "Feature \<Rightarrow> string \<Rightarrow> real"
  evalString :: "Feature \<Rightarrow> string \<Rightarrow> string"
  getStateSet :: "SkinResource \<Rightarrow> StateSet"
  rand :: "nat \<Rightarrow> nat"
  openPolygon :: "Geometry \<Rightarrow> Geometry"
  smoothWalls :: "real \<Rightarrow> Drawable \<Rightarrow> Drawable"
  retessellate :: "Drawable \<Rightarrow> Drawable"
  smoothRoof :: "Drawable \<Rightarrow> Drawable"
  consolidate :: "Geode \<Rightarrow> Geode"
  optimize :: "Node \<Rightarrow> Node"
  computeLocalizers :: "FilterContext \<Rightarrow> (vec3 \<Rightarrow> vec3) \<times> (vec3 \<Rightarrow> vec3) \<times> bool"

text \<open>The members of the filter (without their leading underscore).  \<open>geodes\<close> is the
  map from state sets to geodes, as the list of its entries in key order; \<open>randCalls\<close>
  counts the calls of \<^verbatim>\<open>rand\<close>; \<open>localize\<close> says that \<^verbatim>\<open>_local2world\<close> is not the
  identity.\<close>

record Filter =
  maxAngle_deg :: real
  mergeGeometry :: bool
  wallAngleThresh_deg :: real
  cosWallAngleThresh :: real
  styleDirty :: bool
  style :: Style
  extrusionSymbol :: "ExtrusionSymbol option"
  wallSkinSymbol :: "SkinSymbol option"
  wallPolygonSymbol :: "PolygonSymbol option"
  roofSkinSymbol :: "SkinSymbol option"
  roofPolygonSymbol :: "PolygonSymbol option"
  heightExpr :: string
  heightOffsetExpr :: "string option"
  heightCallback :: "(Feature \<Rightarrow> real) option"
  featureNameExpr :: string
  wallResLib :: "ResourceLibrary option"
  roofResLib :: "ResourceLibrary option"
  geodes :: "(StateSet option \<times> Geode) list"
  m_world2local :: "vec3 \<Rightarrow> vec3"
  m_local2world :: "vec3 \<Rightarrow> vec3"
  localize :: bool
  randCalls :: nat
  messages :: "string list"

text \<open>The constructor.\<close>

definition newFilter :: "Style \<Rightarrow> Filter" where
  "newFilter st =
     \<lparr>maxAngle_deg = 5, mergeGeometry = True, wallAngleThresh_deg = 60,
      cosWallAngleThresh = 0, styleDirty = True, style = st,
      extrusionSymbol = None, wallSkinSymbol = None, wallPolygonSymbol = None,
      roofSkinSymbol = None, roofPolygonSymbol = None,
      heightExpr = [], heightOffsetExpr = None, heightCallback = None,
      featureNameExpr = [], wallResLib = None, roofResLib = None, geodes = [],
      m_world2local = (\<lambda>v. v), m_local2world = (\<lambda>v. v), localize = False,
      randCalls = 0, messages = []\<rparr>"

definition setStyle :: "Style \<Rightarrow> Filter \<Rightarrow> Filter" where
  "setStyle st f = f\<lparr>style := st, styleDirty := True\<rparr>"

text \<open>
  \<^verbatim>\<open>reset(context)\<close>, block by block.  First the blocks that run when the style is
  dirty: the copy of the height expression and the offset expression for heights
  relative to mean sea level, the extraction of the wall and of the roof symbols from
  the named styles of the sheet, and the two backup plans.
\<close>

definition resetHeight :: "ExtrusionSymbol \<Rightarrow> Filter \<Rightarrow> Filter" where
  "resetHeight es f =
     (let a = (case es_heightExpression es of
                 Some e \<Rightarrow> f\<lparr>heightExpr := e\<rparr>
               | None \<Rightarrow> f)
      in if es_heightReference es = HEIGHT_REFERENCE_MSL
         then a\<lparr>heightOffsetExpr := Some ''[__max_z]''\<rparr> else a)"

definition namedStyle :: "string option \<Rightarrow> StyleSheet option \<Rightarrow> Style option" where
  "namedStyle nm sheet =
     (case nm of
        None \<Rightarrow> None
      | Some n \<Rightarrow> (case sheet of None \<Rightarrow> None | Some sh \<Rightarrow> getStyle sh n))"

definition resetWallSymbols :: "ExtrusionSymbol \<Rightarrow> StyleSheet option \<Rightarrow> Filter \<Rightarrow> Filter" where
  "resetWallSymbols es sheet f =
     (case namedStyle (es_wallStyleName es) sheet of
        None \<Rightarrow> f
      | Some wallStyle \<Rightarrow>
          f\<lparr>wallSkinSymbol := st_skin wallStyle, wallPolygonSymbol := st_polygon wallStyle\<rparr>)"

definition resetRoofSymbols :: "ExtrusionSymbol \<Rightarrow> StyleSheet option \<Rightarrow> Filter \<Rightarrow> Filter" where
  "resetRoofSymbols es sheet f =
     (case namedStyle (es_roofStyleName es) sheet of
        None \<Rightarrow> f
      | Some roofStyle \<Rightarrow>
          f\<lparr>roofSkinSymbol := st_skin roofStyle, roofPolygonSymbol := st_polygon roofStyle\<rparr>)"

definition backupSkin :: "Filter \<Rightarrow> Filter" where
  "backupSkin f =
     (case st_skin (style f) of
        None \<Rightarrow> f
      | Some skin \<Rightarrow>
          (let a = (if wallSkinSymbol f = None then f\<lparr>wallSkinSymbol := Some skin\<rparr> else f)
           in if roofSkinSymbol a = None then a\<lparr>roofSkinSymbol := Some skin\<rparr> else a))"

definition backupPoly :: "Filter \<Rightarrow> Filter" where
  "backupPoly f =
     (case st_polygon (style f) of
        None \<Rightarrow> f
      | Some poly \<Rightarrow>
          (let a = (if wallPolygonSymbol f = None then f\<lparr>wallPolygonSymbol := Some poly\<rparr> else f)
           in if roofPolygonSymbol a = None then a\<lparr>roofPolygonSymbol := Some poly\<rparr> else a))"

definition resetStyle :: "FilterContext \<Rightarrow> Filter \<Rightarrow> Filter" where
  "resetStyle context f =
     (let sheet = styles context;
          f2 = f\<lparr>wallSkinSymbol := None, wallPolygonSymbol := None,
                 roofSkinSymbol := None, roofPolygonSymbol := None,
                 extrusionSymbol := None\<rparr>;
          f3 = f2\<lparr>extrusionSymbol := st_extrusion (style f2)\<rparr>;
          f4 = (case extrusionSymbol f3 of
                  None \<Rightarrow> f3
                | Some es \<Rightarrow> resetRoofSymbols es sheet (resetWallSymbols es sheet (resetHeight es f3)))
      in (backupPoly (backupSkin f4))\<lparr>styleDirty := False\<rparr>)"

definition reset :: "FilterContext \<Rightarrow> Filter \<Rightarrow> Filter" where
  "reset context f =
     (let f1 = f\<lparr>cosWallAngleThresh := cos (wallAngleThresh_deg f), geodes := []\<rparr>
      in if styleDirty f1 then resetStyle context f1 else f1)"

subsection \<open>process\<close>

text \<open>\<^verbatim>\<open>_geodes[key]\<close> followed by the creation of a missing geode: the entry of the key,
  or a fresh geode with that state set, entered in key order.\<close>

definition geodeFor ::
  "StateSet option \<Rightarrow> (StateSet option \<times> Geode) list \<Rightarrow> (StateSet option \<times> Geode) list" where
  "geodeFor k m =
     (case map_of m k of
        Some g \<Rightarrow> m
      | None \<Rightarrow>
          (let key = (\<lambda>e. case fst e of None \<Rightarrow> 0 | Some a \<Rightarrow> a)
           in insort_key key (k, \<lparr>g_stateSet = k, g_drawables = []\<rparr>) m))"

definition addDrawable ::
  "StateSet option \<Rightarrow> Drawable \<Rightarrow> (StateSet option \<times> Geode) list
     \<Rightarrow> (StateSet option \<times> Geode) list" where
  "addDrawable k d m =
     map (\<lambda>(k', g). if k' = k then (k', g\<lparr>g_drawables := g_drawables g @ [d]\<rparr>) else (k', g))
       (geodeFor k m)"

text \<open>The choice among the candidates of a resource library: the only one, or the one
  at index \<^verbatim>\<open>rand() % size\<close>.\<close>

definition chooseSkin ::
  "Collaborators \<Rightarrow> SkinResource list \<Rightarrow> nat \<Rightarrow> SkinResource option \<times> nat" where
  "chooseSkin K candidates calls =
     (if length candidates = 1 then (Some (candidates ! 0), calls)
      else if length candidates > 1
      then (Some (candidates ! (rand K calls mod length candidates)), calls + 1)
      else (None, calls))"

text \<open>The body of the loops of \<^verbatim>\<open>process\<close>, for one part of one feature.  The source
  dereferences the extrusion symbol, which \<^verbatim>\<open>push\<close> has checked; without one the model
  leaves the filter as it is.\<close>

definition processPart ::
  "Collaborators \<Rightarrow> FilterContext \<Rightarrow> Feature \<Rightarrow> Filter \<Rightarrow> Geometry \<Rightarrow> Filter" where
  "processPart K context input f part0 =
     (case extrusionSymbol f of
        None \<Rightarrow> f
      | Some es \<Rightarrow>
     (let wantRoof = (componentType part0 = TYPE_POLYGON);
          part = (if wantRoof then openPolygon K part0 else part0);
          h = (case heightCallback f of
                 Some cb \<Rightarrow> cb input
               | None \<Rightarrow>
                   (if es_heightExpression es \<noteq> None then evalNumeric K input (heightExpr f)
                    else es_height es));
          offset = (case heightOffsetExpr f of
                      None \<Rightarrow> 0
                    | Some e \<Rightarrow> evalNumeric K input e);
          (wallSkin, calls1) =
            (case wallSkinSymbol f of
               None \<Rightarrow> (None, randCalls f)
             | Some symb \<Rightarrow>
                 (case wallResLib f of
                    None \<Rightarrow> (None, randCalls f)
                  | Some lib \<Rightarrow>
                      chooseSkin K (lib (symb\<lparr>sk_objectHeight := Some h\<rparr>)) (randCalls f)));
          (roofSkin, calls2) =
            (case roofSkinSymbol f of
               None \<Rightarrow> (None, calls1)
             | Some symb \<Rightarrow>
                 (case roofResLib f of
                    None \<Rightarrow> (None, calls1)
                  | Some lib \<Rightarrow> chooseSkin K (lib symb) calls1));
          wallColor = (case wallPolygonSymbol f of
                         None \<Rightarrow> (1, 1, 1, 1) | Some p \<Rightarrow> fill_color p);
          roofColor = (case roofPolygonSymbol f of
                         None \<Rightarrow> (1, 1, 1, 1) | Some p \<Rightarrow> fill_color p);
          f1 = f\<lparr>randCalls := calls2\<rparr>;
          r = extrudeGeometry part h offset (es_flatten es) wantRoof False wallColor roofColor
                wallSkin roofSkin (context\<lparr>world2local := m_world2local f\<rparr>)
      in if made_geom r
         then
           (let wallStateSet = map_option (getStateSet K) wallSkin;
                name = (if featureNameExpr f1 \<noteq> [] then evalString K input (featureNameExpr f1)
                        else []);
                walls = smoothWalls K (wallAngleThresh_deg f1)
                          \<lparr>d_name = name, d_vertexArray = verts r,
                           d_texCoordArray = texcoords r, d_colorArray = colors r,
                           d_primitiveSets = walls_primitiveSets r, d_dynamic = False\<rparr>;
                g1 = addDrawable wallStateSet walls (geodes f1);
                g2 = (if wantRoof
                      then addDrawable None
                             ((smoothRoof K (retessellate K
                                \<lparr>d_name = name,
                                 d_vertexArray = (case roofVerts r of None \<Rightarrow> [] | Some a \<Rightarrow> a),
                                 d_texCoordArray = topTexcoords r, d_colorArray = roofColors r,
                                 d_primitiveSets = roof_primitiveSets r, d_dynamic = False\<rparr>))
                              \<lparr>d_dynamic := True\<rparr>) g1
                      else g1)
            in f1\<lparr>geodes := g2\<rparr>)
         else f1))"

definition process :: "Collaborators \<Rightarrow> Feature list \<Rightarrow> FilterContext \<Rightarrow> Filter \<Rightarrow> bool \<times> Filter" where
  "process K features context f =
     (True, foldl (\<lambda>f input. foldl (processPart K context input) f (f_parts input)) f features)"

subsection \<open>push\<close>

text \<open>Modelled from the spec: \<^verbatim>\<open>createDelocalizeGroup\<close> of the base class is not in this
  file; the spec has the output wrapped in "one delocalizing parent node (identity
  transform if localization was not needed)": a matrix transform by \<^verbatim>\<open>_local2world\<close>,
  or a plain group, without children.\<close>

definition createDelocalizeGroup :: "Filter \<Rightarrow> Node" where
  "createDelocalizeGroup f = (if localize f then MatrixTransform (m_local2world f) [] else Group [])"

definition addChildren :: "Node \<Rightarrow> Geode list \<Rightarrow> Node" where
  "addChildren n gs =
     (case n of Group cs \<Rightarrow> Group (cs @ gs) | MatrixTransform m cs \<Rightarrow> MatrixTransform m (cs @ gs))"

definition missing_symbology :: string where
  "missing_symbology =
     ''[ExtrudeGeometryFilter] Missing required extrusion symbolology; geometry will be empty''"

definition unable_to_load :: "string \<Rightarrow> string \<Rightarrow> string" where
  "unable_to_load nm what =
     ''[ExtrudeGeometryFilter] Unable to load resource library '' @ [CHR 0x27] @ nm @
     [CHR 0x27] @ ''; '' @ what @ '' geometry will not be textured.''"

text \<open>The library named by a skin symbol, when there is a style sheet, a symbol and a
  name; a warning when the sheet does not have it.\<close>

definition loadLibrary ::
  "StyleSheet option \<Rightarrow> SkinSymbol option \<Rightarrow> string \<Rightarrow> ResourceLibrary option \<times> string list" where
  "loadLibrary sheet symb what =
     (case sheet of
        None \<Rightarrow> (None, [])
      | Some sh \<Rightarrow>
          (case symb of
             None \<Rightarrow> (None, [])
           | Some sy \<Rightarrow>
               (case sk_libraryName sy of
                  None \<Rightarrow> (None, [])
                | Some nm \<Rightarrow>
                    (case getResourceLibrary sh nm of
                       None \<Rightarrow> (None, [unable_to_load nm what])
                     | Some lib \<Rightarrow> (Some lib, [])))))"

text \<open>\<^verbatim>\<open>push(input, context)\<close>: the node returned and the filter afterwards; the warnings
  written to the log are collected in the field \<open>messages\<close>.\<close>

definition push :: "Collaborators \<Rightarrow> Feature list \<Rightarrow> FilterContext \<Rightarrow> Filter \<Rightarrow> Node \<times> Filter" where
  "push K input context f0 =
     (let f = reset context f0
      in if extrusionSymbol f = None
         then (Group [], f\<lparr>messages := messages f @ [missing_symbology]\<rparr>)
         else
           (let sheet = styles context;
                (wl, wmsgs) = loadLibrary sheet (wallSkinSymbol f) ''wall'';
                (rl, rmsgs) = loadLibrary sheet (roofSkinSymbol f) ''roof'';
                f1 = f\<lparr>wallResLib := wl, roofResLib := rl,
                       messages := messages f @ wmsgs @ rmsgs\<rparr>;
                (w2l, l2w, loc) = computeLocalizers K context;
                f2 = f1\<lparr>m_world2local := w2l, m_local2world := l2w, localize := loc\<rparr>;
                (ok, f3) = process K input context f2;
                f4 = (if mergeGeometry f3 \<and> featureNameExpr f3 = []
                      then f3\<lparr>geodes := map (\<lambda>(k, g). (k, consolidate K g)) (geodes f3)\<rparr>
                      else f3);
                group = addChildren (createDelocalizeGroup f4) (map snd (geodes f4));
                f5 = f4\<lparr>geodes := []\<rparr>;
                group' = (if mergeGeometry f5 then optimize K group else group)
            in (group', f5)))"

section \<open>Closed forms of the arrays that the loops fill\<close>

text \<open>
  The definitions of this section are not code of the filter.  They say, without
  counters and array updates, what the loops of \<^verbatim>\<open>extrudeGeometry\<close> leave in the arrays;
  the lemmas below prove that the embedded loops compute exactly these values.
\<close>

definition baseOut :: "Locals \<Rightarrow> vec3 \<Rightarrow> vec3" where
  "baseOut L m = (if makeECEF L then toECEF m (cx L) else m)"

definition roofOut :: "Locals \<Rightarrow> vec3 \<Rightarrow> vec3" where
  "roofOut L m = (if makeECEF L then toECEF (roofPt_of L m) (cx L) else roofPt_of L m)"

definition wallPair :: "Locals \<Rightarrow> vec3 \<Rightarrow> vec3 list" where
  "wallPair L m = [roofOut L m, baseOut L m]"

definition baseV :: "Locals \<Rightarrow> vec3 \<Rightarrow> fp" where
  "baseV L m =
     fdiv (if tex_repeats_y L then Some (- vlength (vsub (roofOut L m) (baseOut L m)))
           else fneg (tex_height_m_adj L))
          (tex_height_m_adj L)"

definition vPair :: "Locals \<Rightarrow> vec3 \<Rightarrow> fp list" where
  "vPair L m = [Some 0, baseV L m]"

definition segIdx :: "nat \<Rightarrow> nat list" where
  "segIdx v = [v, v + 1, v + 2, v + 1, v + 3, v + 2]"

definition closeIdx :: "nat \<Rightarrow> nat \<Rightarrow> nat list" where
  "closeIdx v w = [v, v + 1, w, v + 1, w + 1, w]"

definition partIdx :: "bool \<Rightarrow> nat \<Rightarrow> nat \<Rightarrow> nat \<Rightarrow> nat list" where
  "partIdx poly w v n =
     concat (map (\<lambda>k. segIdx (v + 2 * k)) [0 ..< n - 1]) @
     (if poly \<and> n > 0 then closeIdx (v + 2 * (n - 1)) w else [])"

text \<open>Writing the blocks \<open>f m\<close> of width \<open>k\<close> one after the other from position \<open>p\<close>.\<close>

fun writeSeq :: "('m \<Rightarrow> 'a list) \<Rightarrow> nat \<Rightarrow> nat \<Rightarrow> 'm list \<Rightarrow> 'a list \<Rightarrow> 'a list" where
  "writeSeq f k p [] xs = xs"
| "writeSeq f k p (m # ms) xs =
     writeSeq f k (p + k) ms (take p xs @ f m @ drop (p + k) xs)"

fun wallPrims :: "bool \<Rightarrow> nat \<Rightarrow> vec3 list list \<Rightarrow> PrimitiveSet list" where
  "wallPrims poly w [] = []"
| "wallPrims poly w (p # ps) =
     DrawElementsUInt (partIdx poly w w (length p)) # wallPrims poly (w + 2 * length p) ps"

fun loopPrims :: "nat \<Rightarrow> vec3 list list \<Rightarrow> PrimitiveSet list" where
  "loopPrims r [] = []"
| "loopPrims r (p # ps) = DrawArrays r (length p) # loopPrims (r + length p) ps"

fun basePass :: "Locals \<Rightarrow> nat \<Rightarrow> vec3 list list \<Rightarrow> vec3 list \<Rightarrow> vec3 list" where
  "basePass L b [] bv = bv"
| "basePass L b (p # ps) bv =
     basePass L (b + length p) ps
       (reverseBase b (length p) (writeSeq (\<lambda>m. [baseOut L m]) 1 b p bv))"

text \<open>The state without the primitive sets: the arrays, the counters and the flag.\<close>

definition noPrims :: "ExtrudeState \<Rightarrow> ExtrudeState" where
  "noPrims s = s\<lparr>walls_primitiveSets := [], roof_primitiveSets := [], base_primitiveSets := []\<rparr>"

section \<open>The rotation analysis in the words of the spec\<close>

text \<open>
  The squared length of a segment, the first segment of maximum squared length in scan
  order, the two orientations (the one of the code, which keeps the endpoints only when
  the first \<open>x\<close> is strictly smaller, and the one of the spec, which keeps them also
  when the \<open>x\<close> are equal), and the angle of an oriented segment.
\<close>

definition seg_len2 :: "Segment \<Rightarrow> real" where
  "seg_len2 s = length2 (vsub (snd s) (fst s))"

definition first_longest :: "Segment list \<Rightarrow> Segment option" where
  "first_longest segs = find (\<lambda>s. list_all (\<lambda>t. seg_len2 t \<le> seg_len2 s) segs) segs"

definition orient_strict :: "Segment \<Rightarrow> Segment" where
  "orient_strict n = (if vx (fst n) < vx (snd n) then n else (snd n, fst n))"

definition orient_keep_ties :: "Segment \<Rightarrow> Segment" where
  "orient_keep_ties n = (if vx (fst n) \<le> vx (snd n) then n else (snd n, fst n))"

definition angle_of :: "Segment \<Rightarrow> real" where
  "angle_of n = atan2 (vy (snd n) - vy (fst n)) (vx (snd n) - vx (fst n))"

definition getApparentRotation_spec :: "vec3 list \<Rightarrow> real option" where
  "getApparentRotation_spec geom =
     map_option (\<lambda>n. angle_of (orient_keep_ties n))
       (first_longest (ConstSegmentIterator geom True))"

section \<open>An invariant of the filter\<close>

text \<open>The cached extrusion symbol is that of the style unless the style is dirty: this
  holds after the constructor and is kept by \<open>setStyle\<close>, \<open>reset\<close> and \<open>push\<close>.\<close>

definition cache_ok :: "Filter \<Rightarrow> bool" where
  "cache_ok f = (styleDirty f \<or> extrusionSymbol f = st_extrusion (style f))"

section \<open>Sample inputs\<close>

text \<open>Concrete shapes and settings at which the theorems below are instantiated.\<close>

definition tri :: "vec3 list" where
  "tri = [Vec3 0 0 0, Vec3 1 0 0, Vec3 1 1 0]"

definition hole :: "vec3 list" where
  "hole = [Vec3 5 5 2, Vec3 6 5 2, Vec3 6 6 2]"

definition tri_polygon :: Geometry where
  "tri_polygon = \<lparr>componentType = TYPE_POLYGON, asVector = tri, parts = [tri]\<rparr>"

definition tri_line :: Geometry where
  "tri_line = \<lparr>componentType = TYPE_LINESTRING, asVector = tri, parts = [tri]\<rparr>"

definition two_part_polygon :: Geometry where
  "two_part_polygon = \<lparr>componentType = TYPE_POLYGON, asVector = tri, parts = [tri, hole]\<rparr>"

definition flat_cx :: FilterContext where
  "flat_cx = \<lparr>isGeocentric = False, transformToECEF = (\<lambda>v. v), world2local = (\<lambda>v. v),
     styles = None\<rparr>"

definition white :: vec4 where
  "white = (1, 1, 1, 1)"

definition stretch_skin :: SkinResource where
  "stretch_skin = \<lparr>imageWidth = 1, imageHeight = 1, isTiled = False, texEnvMode = MODULATE\<rparr>"

definition tiled_skin :: SkinResource where
  "tiled_skin = \<lparr>imageWidth = 1, imageHeight = 1, isTiled = True, texEnvMode = MODULATE\<rparr>"

definition point_polygon :: Geometry where
  "point_polygon =
     \<lparr>componentType = TYPE_POLYGON, asVector = [Vec3 0 0 0], parts = [[Vec3 0 0 0]]\<rparr>"

definition with_empty_part :: Geometry where
  "with_empty_part = \<lparr>componentType = TYPE_POLYGON, asVector = tri, parts = [tri, [], hole]\<rparr>"

definition unit_square :: "vec3 list" where
  "unit_square = [Vec3 0 0 0, Vec3 1 0 0, Vec3 1 1 0, Vec3 0 1 0]"

definition upright :: "vec3 list" where
  "upright = [Vec3 0 0 0, Vec3 0 2 0, Vec3 1 1 0]"

definition plain_style :: Style where
  "plain_style = \<lparr>st_extrusion = None, st_skin = None, st_polygon = None\<rparr>"

definition extrusion_style :: Style where
  "extrusion_style =
     \<lparr>st_extrusion = Some \<lparr>es_heightExpression = None, es_height = 10,
         es_heightReference = HEIGHT_REFERENCE_Z, es_wallStyleName = None,
         es_roofStyleName = None, es_flatten = True\<rparr>,
      st_skin = None, st_polygon = None\<rparr>"

definition tri_feature :: Feature where
  "tri_feature = \<lparr>fid = 1, f_parts = [tri_polygon]\<rparr>"

definition plain_collaborators :: Collaborators where
  "plain_collaborators =
     \<lparr>evalNumeric = (\<lambda>f e. 0), evalString = (\<lambda>f e. []), getStateSet = (\<lambda>s. 1),
      rand = (\<lambda>n. n), openPolygon = (\<lambda>g. g), smoothWalls = (\<lambda>a d. d),
      retessellate = (\<lambda>d. d), smoothRoof = (\<lambda>d. d), consolidate = (\<lambda>g. g),
      optimize = (\<lambda>n. n), computeLocalizers = (\<lambda>c. ((\<lambda>v. v), (\<lambda>v. v), False))\<rparr>"

section \<open>The loops compute the closed forms\<close>

lemma upd1:
  "p < length xs \<Longrightarrow> xs[p := a] = take p xs @ [a] @ drop (Suc p) xs"
  by (simp add: upd_conv_take_nth_drop)

lemma upd2:
  "p + 2 \<le> length xs \<Longrightarrow> xs[p := a, Suc p := b] = take p xs @ [a, b] @ drop (p + 2) xs"
proof -
  assume h: "p + 2 \<le> length xs"
  have 1: "xs[p := a] = take p xs @ a # drop (Suc p) xs"
    using h by (simp add: upd_conv_take_nth_drop)
  have "Suc p < length xs" using h by simp
  then have 2: "drop (Suc p) xs = xs ! Suc p # drop (Suc (Suc p)) xs"
    by (rule Cons_nth_drop_Suc [symmetric])
  have "xs[p := a, Suc p := b] = take p xs @ (a # drop (Suc p) xs)[Suc 0 := b]"
    using h by (simp add: 1 list_update_append)
  also have "\<dots> = take p xs @ a # (xs ! Suc p # drop (Suc (Suc p)) xs)[0 := b]"
    using 2 by simp
  finally show ?thesis by simp
qed

lemma writeSeq_closed:
  "(\<And>m. length (f m) = k) \<Longrightarrow> p + k * length ms \<le> length xs \<Longrightarrow>
   writeSeq f k p ms xs = take p xs @ concat (map f ms) @ drop (p + k * length ms) xs"
proof (induction ms arbitrary: p xs)
  case Nil
  show ?case by simp
next
  case (Cons m ms)
  let ?ys = "take p xs @ f m @ drop (p + k) xs"
  have pk: "p + k \<le> length xs" using Cons.prems(2) by simp
  then have len: "length ?ys = length xs" using Cons.prems(1) [of m] by simp
  have t: "take (p + k) ?ys = take p xs @ f m"
    using pk Cons.prems(1) [of m] by simp
  have d: "drop (p + k + k * length ms) ?ys = drop (p + k + k * length ms) xs"
    using pk Cons.prems(1) [of m] by (simp add: add.commute add.left_commute)
  have "writeSeq f k (p + k) ms ?ys =
      take (p + k) ?ys @ concat (map f ms) @ drop (p + k + k * length ms) ?ys"
    using Cons.prems len by (intro Cons.IH) simp_all
  then show ?case by (simp only: writeSeq.simps t d) (simp add: add.assoc)
qed

subsection \<open>One point and the loop over a part\<close>

lemma emitPoint_wallVertPtr:
  "wallVertPtr (fst (emitPoint L w e m (s, pl, ix))) = wallVertPtr s + 2"
  by (simp add: emitPoint_def Let_def)

lemma emitPoint_roofVertPtr:
  "roofVertPtr (fst (emitPoint L w e m (s, pl, ix))) =
     (if roof L then roofVertPtr s + 1 else roofVertPtr s)"
  by (simp add: emitPoint_def Let_def)

lemma emitPoint_baseVertPtr:
  "baseVertPtr (fst (emitPoint L w e m (s, pl, ix))) =
     (if base L then baseVertPtr s + 1 else baseVertPtr s)"
  by (simp add: emitPoint_def Let_def)

lemma emitPoint_verts:
  "verts (fst (emitPoint L w e m (s, pl, ix))) =
     (verts s)[wallVertPtr s := roofOut L m, Suc (wallVertPtr s) := baseOut L m]"
  by (simp add: emitPoint_def Let_def roofOut_def baseOut_def)

lemma emitPoint_roofVerts:
  "roofVerts (fst (emitPoint L w e m (s, pl, ix))) =
     (if roof L then map_option (\<lambda>a. a[roofVertPtr s := roofOut L m]) (roofVerts s)
      else roofVerts s)"
  by (simp add: emitPoint_def Let_def roofOut_def)

lemma emitPoint_baseVerts:
  "baseVerts (fst (emitPoint L w e m (s, pl, ix))) =
     (if base L then map_option (\<lambda>a. a[baseVertPtr s := baseOut L m]) (baseVerts s)
      else baseVerts s)"
  by (simp add: emitPoint_def Let_def baseOut_def)

lemma emitPoint_texV:
  "wallVertPtr s + 2 \<le> length (verts s) \<Longrightarrow>
   map_option (map tv) (texcoords (fst (emitPoint L w e m (s, pl, ix)))) =
     (if hasWallSkin L
      then map_option (\<lambda>t. t[wallVertPtr s := Some 0, Suc (wallVertPtr s) := baseV L m])
             (map_option (map tv) (texcoords s))
      else map_option (map tv) (texcoords s))"
  by (cases "texcoords s")
     (simp_all add: emitPoint_def Let_def roofOut_def baseOut_def baseV_def map_update)

lemma emitPoint_idx:
  "snd (snd (emitPoint L w e m (s, pl, ix))) =
     ix @ (if e then (if isPolygon L then closeIdx (wallVertPtr s) w else [])
           else segIdx (wallVertPtr s))"
  by (simp add: emitPoint_def Let_def segIdx_def closeIdx_def)

lemma emitPoint_made:
  "made_geom (fst (emitPoint L w e m (s, pl, ix)))"
  by (simp add: emitPoint_def Let_def)

lemma emitPoint_frame:
  "topTexcoords (fst (emitPoint L w e m (s, pl, ix))) = topTexcoords s"
  "colors (fst (emitPoint L w e m (s, pl, ix))) = colors s"
  "roofColors (fst (emitPoint L w e m (s, pl, ix))) = roofColors s"
  "roofRotation (fst (emitPoint L w e m (s, pl, ix))) = roofRotation s"
  "walls_primitiveSets (fst (emitPoint L w e m (s, pl, ix))) = walls_primitiveSets s"
  "roof_primitiveSets (fst (emitPoint L w e m (s, pl, ix))) = roof_primitiveSets s"
  "base_primitiveSets (fst (emitPoint L w e m (s, pl, ix))) = base_primitiveSets s"
  by (simp_all add: emitPoint_def Let_def)

lemma partLoop_Cons:
  "partLoop L w (m # ms) (s, pl, ix) =
     partLoop L w ms (fst (emitPoint L w (ms = []) m (s, pl, ix)),
       fst (snd (emitPoint L w (ms = []) m (s, pl, ix))),
       snd (snd (emitPoint L w (ms = []) m (s, pl, ix))))"
  by simp

lemma partLoop_wallVertPtr:
  "wallVertPtr (fst (partLoop L w ms (s, pl, ix))) = wallVertPtr s + 2 * length ms"
  by (induction ms arbitrary: s pl ix)
     (simp_all only: partLoop.simps(1) partLoop_Cons emitPoint_wallVertPtr, simp_all)

lemma partLoop_roofVertPtr:
  "roofVertPtr (fst (partLoop L w ms (s, pl, ix))) =
     (if roof L then roofVertPtr s + length ms else roofVertPtr s)"
  by (induction ms arbitrary: s pl ix)
     (simp_all only: partLoop.simps(1) partLoop_Cons emitPoint_roofVertPtr, simp_all)

lemma partLoop_baseVertPtr:
  "baseVertPtr (fst (partLoop L w ms (s, pl, ix))) =
     (if base L then baseVertPtr s + length ms else baseVertPtr s)"
  by (induction ms arbitrary: s pl ix)
     (simp_all only: partLoop.simps(1) partLoop_Cons emitPoint_baseVertPtr, simp_all)

lemma partLoop_made:
  "made_geom (fst (partLoop L w ms (s, pl, ix))) = (made_geom s \<or> ms \<noteq> [])"
  by (induction ms arbitrary: s pl ix)
     (simp_all only: partLoop.simps(1) partLoop_Cons emitPoint_made, simp_all)

lemma partLoop_frame:
  "topTexcoords (fst (partLoop L w ms (s, pl, ix))) = topTexcoords s"
  "colors (fst (partLoop L w ms (s, pl, ix))) = colors s"
  "roofColors (fst (partLoop L w ms (s, pl, ix))) = roofColors s"
  "roofRotation (fst (partLoop L w ms (s, pl, ix))) = roofRotation s"
  "walls_primitiveSets (fst (partLoop L w ms (s, pl, ix))) = walls_primitiveSets s"
  "roof_primitiveSets (fst (partLoop L w ms (s, pl, ix))) = roof_primitiveSets s"
  "base_primitiveSets (fst (partLoop L w ms (s, pl, ix))) = base_primitiveSets s"
  by (induction ms arbitrary: s pl ix,
      simp_all only: partLoop.simps(1) partLoop_Cons emitPoint_frame, simp_all)

lemma partLoop_verts_w:
  "wallVertPtr s + 2 * length ms \<le> length (verts s) \<Longrightarrow>
   verts (fst (partLoop L w ms (s, pl, ix))) =
     writeSeq (wallPair L) 2 (wallVertPtr s) ms (verts s)"
proof (induction ms arbitrary: s pl ix)
  case Nil
  show ?case by simp
next
  case (Cons m ms)
  let ?e = "emitPoint L w (ms = []) m (s, pl, ix)"
  have v: "verts (fst ?e) = take (wallVertPtr s) (verts s) @ wallPair L m @
      drop (wallVertPtr s + 2) (verts s)"
    using Cons.prems by (simp add: emitPoint_verts upd2 wallPair_def)
  have "wallVertPtr (fst ?e) + 2 * length ms \<le> length (verts (fst ?e))"
    using Cons.prems by (simp add: emitPoint_wallVertPtr emitPoint_verts)
  then have "verts (fst (partLoop L w ms (fst ?e, fst (snd ?e), snd (snd ?e)))) =
     writeSeq (wallPair L) 2 (wallVertPtr (fst ?e)) ms (verts (fst ?e))"
    by (rule Cons.IH)
  then show ?case
    by (simp only: partLoop_Cons writeSeq.simps v emitPoint_wallVertPtr)
qed

lemma partLoop_verts:
  "wallVertPtr s + 2 * length ms \<le> length (verts s) \<Longrightarrow>
   verts (fst (partLoop L w ms (s, pl, ix))) =
     take (wallVertPtr s) (verts s) @ concat (map (wallPair L) ms) @
     drop (wallVertPtr s + 2 * length ms) (verts s)"
  by (simp add: partLoop_verts_w writeSeq_closed wallPair_def)

lemma length_concat_blocks:
  "(\<And>m. length (f m) = k) \<Longrightarrow> length (concat (map f ms)) = k * length ms"
  by (induction ms) simp_all

lemma writeSeq_length:
  "(\<And>m. length (f m) = k) \<Longrightarrow> p + k * length ms \<le> length xs \<Longrightarrow>
   length (writeSeq f k p ms xs) = length xs"
  by (simp add: writeSeq_closed length_concat_blocks)

lemma writeSeq_append:
  "writeSeq f k p (ms @ ns) xs = writeSeq f k (p + k * length ms) ns (writeSeq f k p ms xs)"
  by (induction ms arbitrary: p xs) (simp_all add: add.assoc)

lemma partLoop_roofVerts_w:
  "roof L \<Longrightarrow> roofVerts s = Some a \<Longrightarrow> roofVertPtr s + length ms \<le> length a \<Longrightarrow>
   roofVerts (fst (partLoop L w ms (s, pl, ix))) =
     Some (writeSeq (\<lambda>m. [roofOut L m]) 1 (roofVertPtr s) ms a)"
proof (induction ms arbitrary: s pl ix a)
  case Nil
  then show ?case by simp
next
  case (Cons m ms)
  let ?e = "emitPoint L w (ms = []) m (s, pl, ix)"
  let ?a = "take (roofVertPtr s) a @ [roofOut L m] @ drop (roofVertPtr s + 1) a"
  have v: "roofVerts (fst ?e) = Some ?a"
    using Cons.prems by (simp add: emitPoint_roofVerts upd1)
  have p: "roofVertPtr (fst ?e) = roofVertPtr s + 1"
    using Cons.prems by (simp add: emitPoint_roofVertPtr)
  have "roofVertPtr (fst ?e) + length ms \<le> length ?a"
    using Cons.prems p by simp
  with Cons.prems(1) v
  have "roofVerts (fst (partLoop L w ms (fst ?e, fst (snd ?e), snd (snd ?e)))) =
     Some (writeSeq (\<lambda>m. [roofOut L m]) 1 (roofVertPtr (fst ?e)) ms ?a)"
    by (rule Cons.IH)
  then show ?case
    by (simp only: partLoop_Cons writeSeq.simps p)
qed

lemma partLoop_roofVerts_off:
  "\<not> roof L \<Longrightarrow> roofVerts (fst (partLoop L w ms (s, pl, ix))) = roofVerts s"
proof (induction ms arbitrary: s pl ix)
  case Nil
  then show ?case by simp
next
  case (Cons m ms)
  have "roofVerts (fst (emitPoint L w (ms = []) m (s, pl, ix))) = roofVerts s"
    using Cons.prems by (simp add: emitPoint_roofVerts)
  then show ?case by (simp only: partLoop_Cons Cons.IH [OF Cons.prems])
qed

lemma partLoop_roofVerts_None:
  "roofVerts s = None \<Longrightarrow> roofVerts (fst (partLoop L w ms (s, pl, ix))) = None"
proof (induction ms arbitrary: s pl ix)
  case Nil
  then show ?case by simp
next
  case (Cons m ms)
  have "roofVerts (fst (emitPoint L w (ms = []) m (s, pl, ix))) = None"
    using Cons.prems by (simp add: emitPoint_roofVerts)
  then show ?case by (simp only: partLoop_Cons Cons.IH)
qed

lemma partLoop_baseVerts_w:
  "base L \<Longrightarrow> baseVerts s = Some a \<Longrightarrow> baseVertPtr s + length ms \<le> length a \<Longrightarrow>
   baseVerts (fst (partLoop L w ms (s, pl, ix))) =
     Some (writeSeq (\<lambda>m. [baseOut L m]) 1 (baseVertPtr s) ms a)"
proof (induction ms arbitrary: s pl ix a)
  case Nil
  then show ?case by simp
next
  case (Cons m ms)
  let ?e = "emitPoint L w (ms = []) m (s, pl, ix)"
  let ?a = "take (baseVertPtr s) a @ [baseOut L m] @ drop (baseVertPtr s + 1) a"
  have v: "baseVerts (fst ?e) = Some ?a"
    using Cons.prems by (simp add: emitPoint_baseVerts upd1)
  have p: "baseVertPtr (fst ?e) = baseVertPtr s + 1"
    using Cons.prems by (simp add: emitPoint_baseVertPtr)
  have "baseVertPtr (fst ?e) + length ms \<le> length ?a"
    using Cons.prems p by simp
  with Cons.prems(1) v
  have "baseVerts (fst (partLoop L w ms (fst ?e, fst (snd ?e), snd (snd ?e)))) =
     Some (writeSeq (\<lambda>m. [baseOut L m]) 1 (baseVertPtr (fst ?e)) ms ?a)"
    by (rule Cons.IH)
  then show ?case
    by (simp only: partLoop_Cons writeSeq.simps p)
qed

lemma partLoop_baseVerts_off:
  "\<not> base L \<Longrightarrow> baseVerts (fst (partLoop L w ms (s, pl, ix))) = baseVerts s"
proof (induction ms arbitrary: s pl ix)
  case Nil
  then show ?case by simp
next
  case (Cons m ms)
  have "baseVerts (fst (emitPoint L w (ms = []) m (s, pl, ix))) = baseVerts s"
    using Cons.prems by (simp add: emitPoint_baseVerts)
  then show ?case by (simp only: partLoop_Cons Cons.IH [OF Cons.prems])
qed

lemma partLoop_texV_w:
  "hasWallSkin L \<Longrightarrow> texcoords s = Some t \<Longrightarrow> length t = length (verts s) \<Longrightarrow>
   wallVertPtr s + 2 * length ms \<le> length (verts s) \<Longrightarrow>
   map_option (map tv) (texcoords (fst (partLoop L w ms (s, pl, ix)))) =
     Some (writeSeq (vPair L) 2 (wallVertPtr s) ms (map tv t))"
proof (induction ms arbitrary: s pl ix t)
  case Nil
  then show ?case by simp
next
  case (Cons m ms)
  let ?e = "emitPoint L w (ms = []) m (s, pl, ix)"
  let ?p = "wallVertPtr s"
  have ok: "?p + 2 \<le> length (verts s)" using Cons.prems by simp
  have "map_option (map tv) (texcoords (fst ?e)) =
      Some ((map tv t)[?p := Some 0, Suc ?p := baseV L m])"
    using Cons.prems(1,2) emitPoint_texV [OF ok, of L w "ms = []" m pl ix] by simp
  then obtain t' where t': "texcoords (fst ?e) = Some t'"
    and mt': "map tv t' = (map tv t)[?p := Some 0, Suc ?p := baseV L m]"
    by auto
  have mt: "map tv t' = take ?p (map tv t) @ vPair L m @ drop (?p + 2) (map tv t)"
    using mt' ok Cons.prems(3) by (simp only: vPair_def) (rule upd2, simp)
  have lv: "length (verts (fst ?e)) = length (verts s)"
    by (simp add: emitPoint_verts)
  have lt: "length t' = length (verts (fst ?e))"
    using arg_cong [OF mt', of length] Cons.prems(3) lv by simp
  have "wallVertPtr (fst ?e) + 2 * length ms \<le> length (verts (fst ?e))"
    using Cons.prems(4) lv by (simp add: emitPoint_wallVertPtr)
  with Cons.prems(1) t' lt
  have "map_option (map tv)
      (texcoords (fst (partLoop L w ms (fst ?e, fst (snd ?e), snd (snd ?e))))) =
     Some (writeSeq (vPair L) 2 (wallVertPtr (fst ?e)) ms (map tv t'))"
    by (rule Cons.IH)
  then show ?case
    by (simp only: partLoop_Cons writeSeq.simps mt emitPoint_wallVertPtr)
qed

lemma partLoop_texcoords_None:
  "texcoords s = None \<Longrightarrow> texcoords (fst (partLoop L w ms (s, pl, ix))) = None"
proof (induction ms arbitrary: s pl ix)
  case Nil
  then show ?case by simp
next
  case (Cons m ms)
  have "texcoords (fst (emitPoint L w (ms = []) m (s, pl, ix))) = None"
    using Cons.prems by (simp add: emitPoint_def Let_def)
  then show ?case by (simp only: partLoop_Cons Cons.IH)
qed

lemma partIdx_Suc:
  "partIdx poly w v (Suc (Suc n)) = segIdx v @ partIdx poly w (v + 2) (Suc n)"
proof -
  have "[0..<Suc n] = 0 # map Suc [0..<n]"
    by (simp add: upt_conv_Cons map_Suc_upt del: upt_Suc)
  then show ?thesis
    by (simp add: partIdx_def comp_def del: upt_Suc)
qed

lemma partLoop_idx:
  "snd (snd (partLoop L w ms (s, pl, ix))) =
     ix @ partIdx (isPolygon L) w (wallVertPtr s) (length ms)"
proof (induction ms arbitrary: s pl ix)
  case Nil
  show ?case by (simp add: partIdx_def)
next
  case (Cons m ms)
  let ?e = "emitPoint L w (ms = []) m (s, pl, ix)"
  have ih: "snd (snd (partLoop L w ms (fst ?e, fst (snd ?e), snd (snd ?e)))) =
     snd (snd ?e) @ partIdx (isPolygon L) w (wallVertPtr (fst ?e)) (length ms)"
    by (rule Cons.IH)
  show ?case
  proof (cases ms)
    case Nil
    then show ?thesis by (simp add: emitPoint_idx partIdx_def)
  next
    case (Cons m' ms')
    then show ?thesis using ih
      by (simp only: partLoop_Cons emitPoint_idx emitPoint_wallVertPtr)
         (simp add: partIdx_Suc)
  qed
qed

subsection \<open>One part and the loop over the parts\<close>

lemma length_swap_at [simp]: "length (swap_at a i j) = length a"
  by (simp add: swap_at_def)

lemma length_foldl_swap:
  "length (foldl (\<lambda>a i. swap_at a i (g i)) bv is) = length bv"
  by (induction "is" arbitrary: bv) simp_all

lemma length_reverseBase [simp]: "length (reverseBase b n bv) = length bv"
  by (simp add: reverseBase_def length_foldl_swap)

lemma extrudePart_wallVertPtr:
  "wallVertPtr (extrudePart L s p) = wallVertPtr s + 2 * length p"
  by (simp add: extrudePart_def Let_def case_prod_beta partLoop_wallVertPtr)

lemma extrudePart_roofVertPtr:
  "roofVertPtr (extrudePart L s p) = (if roof L then roofVertPtr s + length p else roofVertPtr s)"
  by (simp add: extrudePart_def Let_def case_prod_beta partLoop_roofVertPtr)

lemma extrudePart_baseVertPtr:
  "baseVertPtr (extrudePart L s p) = (if base L then baseVertPtr s + length p else baseVertPtr s)"
  by (simp add: extrudePart_def Let_def case_prod_beta partLoop_baseVertPtr)

lemma extrudePart_made:
  "made_geom (extrudePart L s p) = (made_geom s \<or> p \<noteq> [])"
  by (simp add: extrudePart_def Let_def case_prod_beta partLoop_made)

lemma extrudePart_frame:
  "topTexcoords (extrudePart L s p) = topTexcoords s"
  "colors (extrudePart L s p) = colors s"
  "roofColors (extrudePart L s p) = roofColors s"
  "roofRotation (extrudePart L s p) = roofRotation s"
  by (simp_all add: extrudePart_def Let_def case_prod_beta partLoop_frame)

lemma extrudePart_verts:
  "wallVertPtr s + 2 * length p \<le> length (verts s) \<Longrightarrow>
   verts (extrudePart L s p) = writeSeq (wallPair L) 2 (wallVertPtr s) p (verts s)"
  by (simp add: extrudePart_def Let_def case_prod_beta partLoop_verts_w)

lemma extrudePart_texcoords:
  "texcoords (extrudePart L s p) = texcoords (fst (partLoop L (wallVertPtr s) p (s, 0, [])))"
  by (simp add: extrudePart_def Let_def case_prod_beta)

lemma extrudePart_roofVerts:
  "roofVerts (extrudePart L s p) = roofVerts (fst (partLoop L (wallVertPtr s) p (s, 0, [])))"
  by (simp add: extrudePart_def Let_def case_prod_beta)

lemma extrudePart_baseVerts:
  "baseVerts (extrudePart L s p) =
     (if base L
      then map_option (reverseBase (baseVertPtr s) (length p))
             (baseVerts (fst (partLoop L (wallVertPtr s) p (s, 0, []))))
      else baseVerts (fst (partLoop L (wallVertPtr s) p (s, 0, []))))"
  by (simp add: extrudePart_def Let_def case_prod_beta partLoop_baseVertPtr)

lemma extrudePart_walls_primitiveSets:
  "walls_primitiveSets (extrudePart L s p) =
     walls_primitiveSets s @
     [DrawElementsUInt (partIdx (isPolygon L) (wallVertPtr s) (wallVertPtr s) (length p))]"
  by (simp add: extrudePart_def Let_def case_prod_beta partLoop_frame partLoop_idx)

lemma extrudePart_roof_primitiveSets:
  "roof_primitiveSets (extrudePart L s p) =
     (if roof L then roof_primitiveSets s @ [DrawArrays (roofVertPtr s) (length p)]
      else roof_primitiveSets s)"
  by (simp add: extrudePart_def Let_def case_prod_beta partLoop_frame partLoop_roofVertPtr)

lemma extrudePart_base_primitiveSets:
  "base_primitiveSets (extrudePart L s p) =
     (if base L then base_primitiveSets s @ [DrawArrays (baseVertPtr s) (length p)]
      else base_primitiveSets s)"
  by (simp add: extrudePart_def Let_def case_prod_beta partLoop_frame partLoop_baseVertPtr)

lemma len_wallPair: "length (wallPair L m) = 2"
  by (simp add: wallPair_def)

lemma len_vPair: "length (vPair L m) = 2"
  by (simp add: vPair_def)

lemma parts_wallVertPtr:
  "wallVertPtr (foldl (extrudePart L) s ps) = wallVertPtr s + 2 * length (concat ps)"
  by (induction ps arbitrary: s) (simp_all add: extrudePart_wallVertPtr)

lemma parts_made:
  "made_geom (foldl (extrudePart L) s ps) = (made_geom s \<or> concat ps \<noteq> [])"
  by (induction ps arbitrary: s) (auto simp add: extrudePart_made)

lemma parts_frame:
  "topTexcoords (foldl (extrudePart L) s ps) = topTexcoords s"
  "colors (foldl (extrudePart L) s ps) = colors s"
  "roofColors (foldl (extrudePart L) s ps) = roofColors s"
  "roofRotation (foldl (extrudePart L) s ps) = roofRotation s"
  by (induction ps arbitrary: s, simp_all add: extrudePart_frame)

lemma parts_walls_primitiveSets:
  "walls_primitiveSets (foldl (extrudePart L) s ps) =
     walls_primitiveSets s @ wallPrims (isPolygon L) (wallVertPtr s) ps"
  by (induction ps arbitrary: s)
     (simp_all add: extrudePart_walls_primitiveSets extrudePart_wallVertPtr)

lemma parts_roof_primitiveSets:
  "roof L \<Longrightarrow> roof_primitiveSets (foldl (extrudePart L) s ps) =
     roof_primitiveSets s @ loopPrims (roofVertPtr s) ps"
  by (induction ps arbitrary: s)
     (simp_all add: extrudePart_roof_primitiveSets extrudePart_roofVertPtr)

lemma parts_base_primitiveSets:
  "base L \<Longrightarrow> base_primitiveSets (foldl (extrudePart L) s ps) =
     base_primitiveSets s @ loopPrims (baseVertPtr s) ps"
  by (induction ps arbitrary: s)
     (simp_all add: extrudePart_base_primitiveSets extrudePart_baseVertPtr)

lemma parts_verts_w:
  "wallVertPtr s + 2 * length (concat ps) \<le> length (verts s) \<Longrightarrow>
   verts (foldl (extrudePart L) s ps) =
     writeSeq (wallPair L) 2 (wallVertPtr s) (concat ps) (verts s)"
proof (induction ps arbitrary: s)
  case Nil
  show ?case by simp
next
  case (Cons p ps)
  let ?s = "extrudePart L s p"
  have ok: "wallVertPtr s + 2 * length p \<le> length (verts s)" using Cons.prems by simp
  have v: "verts ?s = writeSeq (wallPair L) 2 (wallVertPtr s) p (verts s)"
    using ok by (rule extrudePart_verts)
  have l: "length (verts ?s) = length (verts s)"
    using ok by (simp add: v writeSeq_length len_wallPair)
  have "wallVertPtr ?s + 2 * length (concat ps) \<le> length (verts ?s)"
    using Cons.prems l by (simp add: extrudePart_wallVertPtr)
  then have "verts (foldl (extrudePart L) ?s ps) =
      writeSeq (wallPair L) 2 (wallVertPtr ?s) (concat ps) (verts ?s)"
    by (rule Cons.IH)
  then show ?case
    by (simp add: v extrudePart_wallVertPtr writeSeq_append)
qed

lemma parts_texV_w:
  "hasWallSkin L \<Longrightarrow> texcoords s = Some t \<Longrightarrow> length t = length (verts s) \<Longrightarrow>
   wallVertPtr s + 2 * length (concat ps) \<le> length (verts s) \<Longrightarrow>
   map_option (map tv) (texcoords (foldl (extrudePart L) s ps)) =
     Some (writeSeq (vPair L) 2 (wallVertPtr s) (concat ps) (map tv t))"
proof (induction ps arbitrary: s t)
  case Nil
  then show ?case by simp
next
  case (Cons p ps)
  let ?s = "extrudePart L s p"
  have ok: "wallVertPtr s + 2 * length p \<le> length (verts s)" using Cons.prems by simp
  have "map_option (map tv) (texcoords ?s) =
      Some (writeSeq (vPair L) 2 (wallVertPtr s) p (map tv t))"
    using Cons.prems(1,2,3) ok by (simp only: extrudePart_texcoords) (rule partLoop_texV_w)
  then obtain t' where t': "texcoords ?s = Some t'"
    and mt: "map tv t' = writeSeq (vPair L) 2 (wallVertPtr s) p (map tv t)"
    by auto
  have lv: "length (verts ?s) = length (verts s)"
    using ok by (simp add: extrudePart_verts writeSeq_length len_wallPair)
  have "length (map tv t') = length (map tv t)"
    using ok Cons.prems(3) by (simp only: mt) (rule writeSeq_length, simp_all add: len_vPair)
  then have lt: "length t' = length (verts ?s)"
    using lv Cons.prems(3) by simp
  have "wallVertPtr ?s + 2 * length (concat ps) \<le> length (verts ?s)"
    using Cons.prems(4) lv by (simp add: extrudePart_wallVertPtr)
  with Cons.prems(1) t' lt
  have "map_option (map tv) (texcoords (foldl (extrudePart L) ?s ps)) =
      Some (writeSeq (vPair L) 2 (wallVertPtr ?s) (concat ps) (map tv t'))"
    by (rule Cons.IH)
  then show ?case
    by (simp add: mt extrudePart_wallVertPtr writeSeq_append)
qed

lemma parts_texcoords_None:
  "texcoords s = None \<Longrightarrow> texcoords (foldl (extrudePart L) s ps) = None"
  by (induction ps arbitrary: s)
     (simp_all add: extrudePart_texcoords partLoop_texcoords_None)

lemma parts_roofVerts_w:
  "roof L \<Longrightarrow> roofVerts s = Some a \<Longrightarrow> roofVertPtr s + length (concat ps) \<le> length a \<Longrightarrow>
   roofVerts (foldl (extrudePart L) s ps) =
     Some (writeSeq (\<lambda>m. [roofOut L m]) 1 (roofVertPtr s) (concat ps) a)"
proof (induction ps arbitrary: s a)
  case Nil
  then show ?case by simp
next
  case (Cons p ps)
  let ?s = "extrudePart L s p"
  let ?a = "writeSeq (\<lambda>m. [roofOut L m]) 1 (roofVertPtr s) p a"
  have ok: "roofVertPtr s + length p \<le> length a" using Cons.prems by simp
  have v: "roofVerts ?s = Some ?a"
    using Cons.prems(1,2) ok by (simp only: extrudePart_roofVerts) (rule partLoop_roofVerts_w)
  have l: "length ?a = length a"
    using ok by (simp add: writeSeq_length)
  have "roofVertPtr ?s + length (concat ps) \<le> length ?a"
    using Cons.prems l by (simp add: extrudePart_roofVertPtr)
  with Cons.prems(1) v
  have "roofVerts (foldl (extrudePart L) ?s ps) =
      Some (writeSeq (\<lambda>m. [roofOut L m]) 1 (roofVertPtr ?s) (concat ps) ?a)"
    by (rule Cons.IH)
  then show ?case using Cons.prems(1)
    by (simp add: extrudePart_roofVertPtr writeSeq_append)
qed

lemma parts_roofVerts_None:
  "roofVerts s = None \<Longrightarrow> roofVerts (foldl (extrudePart L) s ps) = None"
  by (induction ps arbitrary: s)
     (simp_all add: extrudePart_roofVerts partLoop_roofVerts_None)

lemma parts_baseVerts:
  "base L \<Longrightarrow> baseVerts s = Some a \<Longrightarrow> baseVertPtr s + length (concat ps) \<le> length a \<Longrightarrow>
   baseVerts (foldl (extrudePart L) s ps) = Some (basePass L (baseVertPtr s) ps a)"
proof (induction ps arbitrary: s a)
  case Nil
  then show ?case by simp
next
  case (Cons p ps)
  let ?s = "extrudePart L s p"
  let ?a = "reverseBase (baseVertPtr s) (length p)
              (writeSeq (\<lambda>m. [baseOut L m]) 1 (baseVertPtr s) p a)"
  have ok: "baseVertPtr s + length p \<le> length a" using Cons.prems by simp
  have v: "baseVerts ?s = Some ?a"
    using Cons.prems(1,2) ok
    by (simp add: extrudePart_baseVerts partLoop_baseVerts_w)
  have l: "length ?a = length a"
    using ok by (simp add: writeSeq_length)
  have "baseVertPtr ?s + length (concat ps) \<le> length ?a"
    using Cons.prems l by (simp add: extrudePart_baseVertPtr)
  with Cons.prems(1) v
  have "baseVerts (foldl (extrudePart L) ?s ps) =
      Some (basePass L (baseVertPtr ?s) ps ?a)"
    by (rule Cons.IH)
  then show ?case using Cons.prems(1)
    by (simp add: extrudePart_baseVertPtr)
qed

subsection \<open>The whole function\<close>

lemma nth_concat_pairs:
  "k < length ms \<Longrightarrow>
   concat (map (\<lambda>m. [f m, g m]) ms) ! (2 * k) = f (ms ! k) \<and>
   concat (map (\<lambda>m. [f m, g m]) ms) ! Suc (2 * k) = g (ms ! k)"
proof (induction ms arbitrary: k)
  case Nil
  then show ?case by simp
next
  case (Cons m ms)
  then show ?case by (cases k) simp_all
qed

lemma pointCount_concat: "getTotalPointCount input = length (concat (parts input))"
  by (simp add: getTotalPointCount_def length_concat)

lemma init_fields:
  "wallVertPtr (initState input wr wb wc rc ws rs) = 0"
  "roofVertPtr (initState input wr wb wc rc ws rs) = 0"
  "baseVertPtr (initState input wr wb wc rc ws rs) = 0"
  "verts (initState input wr wb wc rc ws rs) =
     replicate (2 * length (concat (parts input))) zero3"
  "texcoords (initState input wr wb wc rc ws rs) =
     (if ws \<noteq> None then Some (replicate (2 * length (concat (parts input))) zero2) else None)"
  "roofVerts (initState input wr wb wc rc ws rs) =
     (if wr then Some (replicate (length (concat (parts input))) zero3) else None)"
  "baseVerts (initState input wr wb wc rc ws rs) =
     (if wb then Some (replicate (length (concat (parts input))) zero3) else None)"
  "topTexcoords (initState input wr wb wc rc ws rs) =
     (if wr \<and> rs \<noteq> None then Some (replicate (length (concat (parts input))) zero2) else None)"
  "roofRotation (initState input wr wb wc rc ws rs) =
     (if wr \<and> rs \<noteq> None then getApparentRotation (asVector input) else 0)"
  "made_geom (initState input wr wb wc rc ws rs) = False"
  "walls_primitiveSets (initState input wr wb wc rc ws rs) = []"
  "roof_primitiveSets (initState input wr wb wc rc ws rs) = []"
  "base_primitiveSets (initState input wr wb wc rc ws rs) = []"
  by (simp_all add: initState_def Let_def pointCount_concat)

lemma locals_fields:
  "isPolygon (mkLocals input h ho flat wr wb ws c) = (componentType input = TYPE_POLYGON)"
  "flatten (mkLocals input h ho flat wr wb ws c) = flat"
  "height (mkLocals input h ho flat wr wb ws c) = h - ho"
  "targetLen (mkLocals input h ho flat wr wb ws c) = b_targetLen (zfinder h (parts input)) - ho"
  "minLoc (mkLocals input h ho flat wr wb ws c) = b_minLoc (zfinder h (parts input))"
  "roof (mkLocals input h ho flat wr wb ws c) = wr"
  "base (mkLocals input h ho flat wr wb ws c) = wb"
  "hasWallSkin (mkLocals input h ho flat wr wb ws c) = (ws \<noteq> None)"
  "tex_repeats_y (mkLocals input h ho flat wr wb ws c) =
     (case ws of None \<Rightarrow> False | Some w \<Rightarrow> isTiled w)"
  "makeECEF (mkLocals input h ho flat wr wb ws c) = isGeocentric c"
  "cx (mkLocals input h ho flat wr wb ws c) = c"
  by (simp_all add: mkLocals_def Let_def)

lemma eg_verts:
  "verts (extrudeGeometry input h ho flat wr wb wc rc ws rs c) =
     concat (map (wallPair (mkLocals input h ho flat wr wb ws c)) (concat (parts input)))"
  by (simp add: extrudeGeometry_def parts_verts_w init_fields writeSeq_closed len_wallPair)

lemma eg_texV:
  "map_option (map tv) (texcoords (extrudeGeometry input h ho flat wr wb wc rc (Some w) rs c)) =
     Some (concat (map (vPair (mkLocals input h ho flat wr wb (Some w) c))
       (concat (parts input))))"
proof -
  let ?L = "mkLocals input h ho flat wr wb (Some w) c"
  let ?s = "initState input wr wb wc rc (Some w) rs"
  let ?t = "replicate (2 * length (concat (parts input))) zero2"
  have "map_option (map tv) (texcoords (foldl (extrudePart ?L) ?s (parts input))) =
      Some (writeSeq (vPair ?L) 2 (wallVertPtr ?s) (concat (parts input)) (map tv ?t))"
    by (rule parts_texV_w) (simp_all add: init_fields locals_fields)
  then show ?thesis
    by (simp add: extrudeGeometry_def init_fields writeSeq_closed len_vPair)
qed

lemma eg_texcoords_None:
  "texcoords (extrudeGeometry input h ho flat wr wb wc rc None rs c) = None"
  by (simp add: extrudeGeometry_def parts_texcoords_None init_fields)

lemma eg_roofVerts:
  "roofVerts (extrudeGeometry input h ho flat wr wb wc rc ws rs c) =
     (if wr then Some (map (roofOut (mkLocals input h ho flat wr wb ws c)) (concat (parts input)))
      else None)"
proof (cases wr)
  case True
  let ?L = "mkLocals input h ho flat wr wb ws c"
  let ?s = "initState input wr wb wc rc ws rs"
  let ?a = "replicate (length (concat (parts input))) zero3"
  have "roofVerts (foldl (extrudePart ?L) ?s (parts input)) =
      Some (writeSeq (\<lambda>m. [roofOut ?L m]) 1 (roofVertPtr ?s) (concat (parts input)) ?a)"
    using True by (intro parts_roofVerts_w) (simp_all add: init_fields locals_fields)
  then show ?thesis using True
    by (simp add: extrudeGeometry_def init_fields writeSeq_closed)
next
  case False
  then show ?thesis
    by (simp add: extrudeGeometry_def parts_roofVerts_None init_fields)
qed

lemma eg_baseVerts:
  "baseVerts (extrudeGeometry input h ho flat wr True wc rc ws rs c) =
     Some (basePass (mkLocals input h ho flat wr True ws c) 0 (parts input)
       (replicate (length (concat (parts input))) zero3))"
proof -
  let ?L = "mkLocals input h ho flat wr True ws c"
  let ?s = "initState input wr True wc rc ws rs"
  let ?a = "replicate (length (concat (parts input))) zero3"
  have "baseVerts (foldl (extrudePart ?L) ?s (parts input)) =
      Some (basePass ?L (baseVertPtr ?s) (parts input) ?a)"
    by (intro parts_baseVerts) (simp_all add: init_fields locals_fields)
  then show ?thesis
    by (simp add: extrudeGeometry_def init_fields)
qed

lemma eg_walls_primitiveSets:
  "walls_primitiveSets (extrudeGeometry input h ho flat wr wb wc rc ws rs c) =
     wallPrims (componentType input = TYPE_POLYGON) 0 (parts input)"
  by (simp add: extrudeGeometry_def parts_walls_primitiveSets init_fields locals_fields)

lemma eg_topTexcoords:
  "topTexcoords (extrudeGeometry input h ho flat wr wb wc rc ws rs c) =
     (if wr \<and> rs \<noteq> None then Some (replicate (getTotalPointCount input) zero2) else None)"
  by (simp add: extrudeGeometry_def parts_frame init_fields pointCount_concat)

lemma eg_roofRotation:
  "roofRotation (extrudeGeometry input h ho flat wr wb wc rc ws rs c) =
     (if wr \<and> rs \<noteq> None then getApparentRotation (asVector input) else 0)"
  by (simp add: extrudeGeometry_def parts_frame init_fields)

lemma eg_made_geom:
  "made_geom (extrudeGeometry input h ho flat wr wb wc rc ws rs c) =
     (concat (parts input) \<noteq> [])"
  by (simp add: extrudeGeometry_def parts_made init_fields)

lemma length_segs:
  "length (concat (map (\<lambda>k. segIdx (v + 2 * k)) ks)) = 6 * length ks"
  by (induction ks) (simp_all add: segIdx_def)

lemma length_partIdx:
  "length (partIdx poly w v n) = (if poly then 6 * n else 6 * (n - 1))"
  by (cases n) (simp_all add: partIdx_def length_segs closeIdx_def)

lemma eg_length_verts:
  "length (verts (extrudeGeometry input h ho flat wr wb wc rc ws rs c)) =
     2 * length (concat (parts input))"
  by (simp add: eg_verts length_concat_blocks len_wallPair)

lemma eg_verts_nth:
  assumes "k < length (concat (parts input))"
  shows "verts (extrudeGeometry input h ho flat wr wb wc rc ws rs c) ! (2 * k) =
           roofOut (mkLocals input h ho flat wr wb ws c) (concat (parts input) ! k) \<and>
         verts (extrudeGeometry input h ho flat wr wb wc rc ws rs c) ! Suc (2 * k) =
           baseOut (mkLocals input h ho flat wr wb ws c) (concat (parts input) ! k)"
  using nth_concat_pairs [OF assms, of "roofOut (mkLocals input h ho flat wr wb ws c)"
      "baseOut (mkLocals input h ho flat wr wb ws c)"]
  by (simp add: eg_verts wallPair_def [abs_def])

lemma eg_texV_nth:
  assumes "k < length (concat (parts input))"
  shows "\<exists>t. texcoords (extrudeGeometry input h ho flat wr wb wc rc (Some w) rs c) = Some t \<and>
           length t = 2 * length (concat (parts input)) \<and>
           tv (t ! (2 * k)) = Some 0 \<and>
           tv (t ! Suc (2 * k)) =
             baseV (mkLocals input h ho flat wr wb (Some w) c) (concat (parts input) ! k)"
proof -
  let ?L = "mkLocals input h ho flat wr wb (Some w) c"
  let ?ms = "concat (parts input)"
  obtain t where t: "texcoords (extrudeGeometry input h ho flat wr wb wc rc (Some w) rs c) = Some t"
    and mt: "map tv t = concat (map (vPair ?L) ?ms)"
    using eg_texV [of input h ho flat wr wb wc rc w rs c] by auto
  have "length (map tv t) = 2 * length ?ms"
    by (simp only: mt) (simp add: length_concat_blocks len_vPair)
  then have l: "length t = 2 * length ?ms" by simp
  have n: "concat (map (vPair ?L) ?ms) ! (2 * k) = Some 0 \<and>
      concat (map (vPair ?L) ?ms) ! Suc (2 * k) = baseV ?L (?ms ! k)"
    using nth_concat_pairs [OF assms, of "\<lambda>m. Some 0" "baseV ?L"]
    by (simp add: vPair_def [abs_def])
  have "tv (t ! (2 * k)) = map tv t ! (2 * k)" "tv (t ! Suc (2 * k)) = map tv t ! Suc (2 * k)"
    using l assms by simp_all
  then show ?thesis using t l n mt by simp
qed

subsection \<open>The first pass\<close>

lemma zfinder_point_target:
  "b_targetLen (zfinder_point h b m) = max (b_targetLen b) (vz m + h)"
  by (simp add: zfinder_point_def Let_def max_def)

lemma zfinder_inner_target:
  "b_targetLen (foldl (zfinder_point h) b ms) =
     fold max (map (\<lambda>p. vz p + h) ms) (b_targetLen b)"
  by (induction ms arbitrary: b) (simp_all add: zfinder_point_target max.commute)

lemma zfinder_outer_target:
  "b_targetLen (foldl (\<lambda>b geom. foldl (zfinder_point h) b geom) b ps) =
     fold max (map (\<lambda>p. vz p + h) (concat ps)) (b_targetLen b)"
  by (induction ps arbitrary: b) (simp_all add: zfinder_inner_target)

lemma zfinder_target:
  assumes "ps' = concat ps" "ps' \<noteq> []" "\<forall>p\<in>set ps'. - DBL_MAX \<le> vz p + h"
  shows "b_targetLen (zfinder h ps) = Max ((\<lambda>p. vz p + h) ` set ps')"
proof -
  let ?A = "(\<lambda>p. vz p + h) ` set ps'"
  have fin: "finite ?A" and ne: "?A \<noteq> {}" using assms(2) by simp_all
  obtain q where q: "q \<in> set ps'" using assms(2) by (cases ps') auto
  then have "- DBL_MAX \<le> vz q + h" using assms(3) by blast
  moreover have "vz q + h \<le> Max ?A" using q fin by (intro Max_ge) auto
  ultimately have "- DBL_MAX \<le> Max ?A" by linarith
  then have "Max (insert (- DBL_MAX) ?A) = Max ?A"
    using fin ne by (simp add: max_def)
  moreover have "b_targetLen (zfinder h ps) = Max (set (- DBL_MAX # map (\<lambda>p. vz p + h) ps'))"
    by (simp only: Max.set_eq_fold) (simp add: zfinder_def zfinder_outer_target assms(1))
  ultimately show ?thesis by simp
qed

lemma DBL_MAX_pos: "0 < DBL_MAX"
  by (simp add: DBL_MAX_def)

lemma wallPrims_single:
  "wallPrims poly 0 [ms] = [DrawElementsUInt (partIdx poly 0 0 (length ms))]"
  by simp

lemma segIdx_unfold: "segIdx (2 * k) = [2 * k, 2 * k + 1, 2 * k + 2, 2 * k + 1, 2 * k + 3, 2 * k + 2]"
  by (simp add: segIdx_def)

lemma roofOut_flat:
  "flatten L \<Longrightarrow> \<not> makeECEF L \<Longrightarrow> vz (roofOut L m) = targetLen L"
  by (simp add: roofOut_def roofPt_of_def)

lemma fneg_if: "fneg (if b then Some x else y) = (if b then Some (- x) else fneg y)"
  by (simp add: fneg_def)

lemma fdiv_self: "a \<noteq> 0 \<Longrightarrow> fdiv (fneg (Some a)) (Some a) = Some (- 1)"
  by (simp add: fdiv_def fneg_def)

lemma zfinder_tri:
  "zfinder 10 [tri] = \<lparr>b_targetLen = 10, b_minLoc = Vec3 0 0 0, b_maxLoc = Vec3 0 0 0\<rparr>"
  using DBL_MAX_pos by (simp add: zfinder_def zfinder_point_def tri_def Let_def)

lemma osg_round_10: "osg_round 10 = 10"
  by (simp add: osg_round_def)

lemma adj_tri:
  "imageHeight w = 1 \<Longrightarrow>
   tex_height_m_adj (mkLocals tri_polygon 10 0 flat wr wb (Some w) c) = Some 1"
  by (simp add: tex_height_m_adj_def tex_div_def fdiv_def mkLocals_def tri_polygon_def
      zfinder_tri osg_round_10 Let_def)

lemma sqrt_100: "sqrt 100 = 10"
  by (rule real_sqrt_unique) simp_all

lemma verts_tri_01:
  "verts (extrudeGeometry tri_polygon 10 0 False wr wb wc rc ws rs flat_cx) ! 0 = Vec3 0 0 10"
  "verts (extrudeGeometry tri_polygon 10 0 False wr wb wc rc ws rs flat_cx) ! Suc 0 = Vec3 0 0 0"
  by (simp_all add: eg_verts tri_polygon_def tri_def wallPair_def roofOut_def baseOut_def
      roofPt_of_def locals_fields flat_cx_def)

subsection \<open>Primitive sets do not influence the arrays\<close>

lemma emitPoint_partLen:
  "fst (snd (emitPoint L w e m (s, pl, ix))) =
     pl + (if wallVertPtr s > w
           then vlength (vsub
             ((verts s)[wallVertPtr s := roofOut L m, Suc (wallVertPtr s) := baseOut L m]
                ! wallVertPtr s)
             ((verts s)[wallVertPtr s := roofOut L m, Suc (wallVertPtr s) := baseOut L m]
                ! (wallVertPtr s - 2)))
           else 0)"
  by (simp add: emitPoint_def Let_def roofOut_def baseOut_def)

lemma emitPoint_texcoords:
  "texcoords (fst (emitPoint L w e m (s, pl, ix))) =
     (if hasWallSkin L
      then map_option
        (\<lambda>t. t[wallVertPtr s :=
                 Vec2 (fdiv (Some (fst (snd (emitPoint L w e m (s, pl, ix)))))
                        (Some (tex_width_m L))) (Some 0),
               Suc (wallVertPtr s) :=
                 Vec2 (fdiv (Some (fst (snd (emitPoint L w e m (s, pl, ix)))))
                        (Some (tex_width_m L)))
                   (fdiv (if tex_repeats_y L
                          then Some (- vlength (vsub
                            ((verts s)[wallVertPtr s := roofOut L m,
                                Suc (wallVertPtr s) := baseOut L m] ! wallVertPtr s)
                            ((verts s)[wallVertPtr s := roofOut L m,
                                Suc (wallVertPtr s) := baseOut L m] ! Suc (wallVertPtr s))))
                          else fneg (tex_height_m_adj L))
                      (tex_height_m_adj L))])
        (texcoords s)
      else texcoords s)"
  by (simp add: emitPoint_def Let_def roofOut_def baseOut_def)

lemma noPrims_fields:
  "wallVertPtr (noPrims s) = wallVertPtr s"
  "roofVertPtr (noPrims s) = roofVertPtr s"
  "baseVertPtr (noPrims s) = baseVertPtr s"
  "verts (noPrims s) = verts s"
  "texcoords (noPrims s) = texcoords s"
  "colors (noPrims s) = colors s"
  "roofVerts (noPrims s) = roofVerts s"
  "roofColors (noPrims s) = roofColors s"
  "roofRotation (noPrims s) = roofRotation s"
  "baseVerts (noPrims s) = baseVerts s"
  "topTexcoords (noPrims s) = topTexcoords s"
  "made_geom (noPrims s) = made_geom s"
  "walls_primitiveSets (noPrims s) = []"
  "roof_primitiveSets (noPrims s) = []"
  "base_primitiveSets (noPrims s) = []"
  by (simp_all add: noPrims_def)

lemma emitPoint_noPrims_snd:
  "snd (emitPoint L w e m (noPrims s, pl, ix)) = snd (emitPoint L w e m (s, pl, ix))"
  by (rule prod_eqI) (simp_all only: emitPoint_partLen emitPoint_idx noPrims_fields)

lemma emitPoint_noPrims_fst:
  "fst (emitPoint L w e m (noPrims s, pl, ix)) = noPrims (fst (emitPoint L w e m (s, pl, ix)))"
  by (rule ExtrudeState.equality)
     (simp_all only: noPrims_fields emitPoint_wallVertPtr emitPoint_roofVertPtr
        emitPoint_baseVertPtr emitPoint_verts emitPoint_roofVerts emitPoint_baseVerts
        emitPoint_texcoords emitPoint_partLen emitPoint_made emitPoint_frame, simp_all)

lemma emitPoint_noPrims:
  "emitPoint L w e m (noPrims s, pl, ix) =
     (noPrims (fst (emitPoint L w e m (s, pl, ix))), snd (emitPoint L w e m (s, pl, ix)))"
  by (rule prod_eqI) (simp_all only: fst_conv snd_conv emitPoint_noPrims_fst emitPoint_noPrims_snd)

lemma partLoop_noPrims:
  "partLoop L w ms (noPrims s, pl, ix) =
     (noPrims (fst (partLoop L w ms (s, pl, ix))), snd (partLoop L w ms (s, pl, ix)))"
proof (induction ms arbitrary: s pl ix)
  case Nil
  show ?case by simp
next
  case (Cons m ms)
  obtain s' pl' ix' where e: "emitPoint L w (ms = []) m (s, pl, ix) = (s', pl', ix')"
    by (cases "emitPoint L w (ms = []) m (s, pl, ix)") auto
  show ?case
    by (simp add: emitPoint_noPrims e Cons.IH)
qed

lemma extrudePart_verts_loop:
  "verts (extrudePart L s p) = verts (fst (partLoop L (wallVertPtr s) p (s, 0, [])))"
  by (simp add: extrudePart_def Let_def case_prod_beta)

lemma extrudePart_noPrims:
  "noPrims (extrudePart L (noPrims s) p) = noPrims (extrudePart L s p)"
  by (rule ExtrudeState.equality)
     (simp_all only: noPrims_fields extrudePart_wallVertPtr extrudePart_roofVertPtr
        extrudePart_baseVertPtr extrudePart_made extrudePart_frame extrudePart_verts_loop
        extrudePart_texcoords extrudePart_roofVerts extrudePart_baseVerts
        partLoop_noPrims fst_conv, simp_all)

lemma reverseBase_0: "reverseBase b 0 bv = bv"
  by (simp add: reverseBase_def)

lemma extrudePart_empty: "noPrims (extrudePart L s []) = noPrims s"
  by (rule ExtrudeState.equality)
     (simp_all only: noPrims_fields extrudePart_wallVertPtr extrudePart_roofVertPtr
        extrudePart_baseVertPtr extrudePart_made extrudePart_frame extrudePart_verts_loop
        extrudePart_texcoords extrudePart_roofVerts extrudePart_baseVerts
        partLoop.simps fst_conv,
      simp_all add: reverseBase_0 option.map_ident cong: option.map_cong)

lemma parts_noPrims:
  "noPrims (foldl (extrudePart L) (noPrims s) ps) = noPrims (foldl (extrudePart L) s ps)"
proof (induction ps arbitrary: s)
  case Nil
  show ?case by (simp add: noPrims_def)
next
  case (Cons p ps)
  have "noPrims (foldl (extrudePart L) (extrudePart L (noPrims s) p) ps) =
      noPrims (foldl (extrudePart L) (noPrims (extrudePart L (noPrims s) p)) ps)"
    by (simp only: Cons.IH)
  also have "\<dots> = noPrims (foldl (extrudePart L) (noPrims (extrudePart L s p)) ps)"
    by (simp only: extrudePart_noPrims)
  also have "\<dots> = noPrims (foldl (extrudePart L) (extrudePart L s p) ps)"
    by (simp only: Cons.IH)
  finally show ?case by simp
qed

lemma parts_skip_empty:
  "noPrims (foldl (extrudePart L) s (ps1 @ [] # ps2)) =
   noPrims (foldl (extrudePart L) s (ps1 @ ps2))"
proof -
  let ?s1 = "foldl (extrudePart L) s ps1"
  have "noPrims (foldl (extrudePart L) s (ps1 @ [] # ps2)) =
      noPrims (foldl (extrudePart L) (extrudePart L ?s1 []) ps2)"
    by simp
  also have "\<dots> = noPrims (foldl (extrudePart L) (noPrims (extrudePart L ?s1 [])) ps2)"
    by (simp only: parts_noPrims)
  also have "\<dots> = noPrims (foldl (extrudePart L) (noPrims ?s1) ps2)"
    by (simp only: extrudePart_empty)
  also have "\<dots> = noPrims (foldl (extrudePart L) ?s1 ps2)"
    by (simp only: parts_noPrims)
  finally show ?thesis by simp
qed

lemma zfinder_skip_empty: "zfinder h (ps1 @ [] # ps2) = zfinder h (ps1 @ ps2)"
  by (simp add: zfinder_def)

lemma eg_skip_empty:
  assumes "parts input = ps1 @ [] # ps2"
  shows "noPrims (extrudeGeometry input h ho flat wr wb wc rc ws rs c) =
         noPrims (extrudeGeometry (input\<lparr>parts := ps1 @ ps2\<rparr>) h ho flat wr wb wc rc ws rs c)"
proof -
  have 1: "mkLocals (input\<lparr>parts := ps1 @ ps2\<rparr>) h ho flat wr wb ws c =
      mkLocals input h ho flat wr wb ws c"
    by (simp add: mkLocals_def assms zfinder_skip_empty)
  have 2: "initState (input\<lparr>parts := ps1 @ ps2\<rparr>) wr wb wc rc ws rs =
      initState input wr wb wc rc ws rs"
    by (simp add: initState_def getTotalPointCount_def assms)
  have 3: "parts (input\<lparr>parts := ps1 @ ps2\<rparr>) = ps1 @ ps2" by simp
  show ?thesis
    by (simp only: extrudeGeometry_def 1 2 3 assms parts_skip_empty)
qed

lemma length_wallPrims: "length (wallPrims poly w ps) = length ps"
  by (induction ps arbitrary: w) simp_all

lemma length_loopPrims: "length (loopPrims r ps) = length ps"
  by (induction ps arbitrary: r) simp_all

lemma wallPrims_append:
  "wallPrims poly w (ps @ qs) =
     wallPrims poly w ps @ wallPrims poly (w + 2 * length (concat ps)) qs"
  by (induction ps arbitrary: w) (simp_all add: add.assoc)

lemma loopPrims_append:
  "loopPrims r (ps @ qs) = loopPrims r ps @ loopPrims (r + length (concat ps)) qs"
  by (induction ps arbitrary: r) (simp_all add: add.assoc)

lemma eg_roof_primitiveSets:
  "roof_primitiveSets (extrudeGeometry input h ho flat wr wb wc rc ws rs c) =
     (if wr then loopPrims 0 (parts input) else [])"
proof (cases wr)
  case True
  then show ?thesis
    by (simp add: extrudeGeometry_def parts_roof_primitiveSets init_fields locals_fields)
next
  case False
  have "\<not> roof L \<Longrightarrow> roof_primitiveSets (foldl (extrudePart L) s ps) = roof_primitiveSets s"
    for L s ps
    by (induction ps arbitrary: s) (simp_all add: extrudePart_roof_primitiveSets)
  then show ?thesis using False
    by (simp add: extrudeGeometry_def init_fields locals_fields)
qed

lemma eg_base_primitiveSets:
  "base_primitiveSets (extrudeGeometry input h ho flat wr wb wc rc ws rs c) =
     (if wb then loopPrims 0 (parts input) else [])"
proof (cases wb)
  case True
  then show ?thesis
    by (simp add: extrudeGeometry_def parts_base_primitiveSets init_fields locals_fields)
next
  case False
  have "\<not> base L \<Longrightarrow> base_primitiveSets (foldl (extrudePart L) s ps) = base_primitiveSets s"
    for L s ps
    by (induction ps arbitrary: s) (simp_all add: extrudePart_base_primitiveSets)
  then show ?thesis using False
    by (simp add: extrudeGeometry_def init_fields locals_fields)
qed

lemma insert_at_append:
  "length xs = n \<Longrightarrow> take n (xs @ ys) @ a # drop n (xs @ ys) = xs @ a # ys"
  by simp

lemma baseV_None:
  assumes "tex_height_m_adj L = Some a"
  shows "(baseV L m = None) = (a = 0)"
  by (simp add: baseV_def assms fdiv_def fneg_def)

lemma tex_div_not_0: "tex_div mh th \<noteq> Some 0"
  by (simp add: tex_div_def fdiv_def Let_def)

lemma tex_div_Some:
  "th \<noteq> 0 \<Longrightarrow> \<exists>d. tex_div mh th = Some d \<and> d \<noteq> 0"
  by (simp add: tex_div_def fdiv_def Let_def)

lemma zfinder_tri_0:
  "zfinder 0 [tri] = \<lparr>b_targetLen = 0, b_minLoc = Vec3 0 0 0, b_maxLoc = Vec3 0 0 0\<rparr>"
  using DBL_MAX_pos by (simp add: zfinder_def zfinder_point_def tri_def Let_def)

lemma osg_round_0: "osg_round 0 = 0"
  by (simp add: osg_round_def)

subsection \<open>The scan for the longest edge\<close>

lemma getApparentRotation_alt:
  "getApparentRotation geom =
     angle_of (orient_strict (fst (foldl longer ((zero3, zero3), 0)
       (ConstSegmentIterator geom True))))"
  by (simp add: getApparentRotation_def angle_of_def orient_strict_def Let_def)

lemma longer_alt:
  "longer (n, m) s = (if seg_len2 s > m then (s, seg_len2 s) else (n, m))"
  by (simp add: longer_def seg_len2_def Let_def)

lemma seg_len2_nonneg: "0 \<le> seg_len2 s"
  by (simp add: seg_len2_def length2_def)

lemma seg_len2_zero: "seg_len2 s = 0 \<Longrightarrow> fst s = snd s"
proof -
  assume z: "seg_len2 s = 0"
  let ?a = "vx (snd s) - vx (fst s)" and ?b = "vy (snd s) - vy (fst s)"
    and ?c = "vz (snd s) - vz (fst s)"
  have "?a * ?a + ?b * ?b + ?c * ?c = 0"
    using z by (simp add: seg_len2_def length2_def vsub_def)
  moreover have "0 \<le> ?a * ?a" "0 \<le> ?b * ?b" "0 \<le> ?c * ?c" by simp_all
  ultimately have "?a * ?a = 0" "?b * ?b = 0" "?c * ?c = 0" by linarith+
  then have "vx (fst s) = vx (snd s)" "vy (fst s) = vy (snd s)" "vz (fst s) = vz (snd s)"
    by simp_all
  then show ?thesis by (simp add: vec3.expand)
qed

lemma find_append_alt:
  "find P (xs @ ys) = (case find P xs of None \<Rightarrow> find P ys | Some x \<Rightarrow> Some x)"
  by (induction xs) simp_all

lemma find_stronger:
  "find P xs = Some n \<Longrightarrow> (\<And>x. x \<in> set xs \<Longrightarrow> Q x \<Longrightarrow> P x) \<Longrightarrow> Q n \<Longrightarrow> find Q xs = Some n"
proof (induction xs)
  case Nil
  then show ?case by simp
next
  case (Cons x xs)
  show ?case
  proof (cases "P x")
    case True
    then have "n = x" using Cons.prems(1) by simp
    then show ?thesis using Cons.prems(3) by simp
  next
    case False
    then have f: "find P xs = Some n" using Cons.prems(1) by simp
    have nq: "\<not> Q x" using False Cons.prems(2) [of x] by auto
    have "find Q xs = Some n"
      using f Cons.prems(2,3) by (intro Cons.IH) auto
    then show ?thesis using nq by simp
  qed
qed

lemma find_none: "(\<And>x. x \<in> set xs \<Longrightarrow> \<not> P x) \<Longrightarrow> find P xs = None"
  by (induction xs) simp_all

text \<open>The state of the scan after a prefix of the segments.\<close>

lemma scan_invariant:
  "\<exists>n m. foldl longer ((zero3, zero3), 0) segs = (n, m) \<and> 0 \<le> m \<and>
      (\<forall>t \<in> set segs. seg_len2 t \<le> m) \<and>
      (0 < m \<longrightarrow> first_longest segs = Some n \<and> seg_len2 n = m) \<and>
      (m = 0 \<longrightarrow> n = (zero3, zero3))"
proof (induction segs rule: rev_induct)
  case Nil
  show ?case by simp
next
  case (snoc s segs)
  then obtain n m where f: "foldl longer ((zero3, zero3), 0) segs = (n, m)" and m0: "0 \<le> m"
    and ub: "\<forall>t \<in> set segs. seg_len2 t \<le> m"
    and pos: "0 < m \<longrightarrow> first_longest segs = Some n \<and> seg_len2 n = m"
    and zero: "m = 0 \<longrightarrow> n = (zero3, zero3)"
    by blast
  let ?P = "\<lambda>x. list_all (\<lambda>t. seg_len2 t \<le> seg_len2 x) (segs @ [s])"
  show ?case
  proof (cases "seg_len2 s > m")
    case True
    have r: "foldl longer ((zero3, zero3), 0) (segs @ [s]) = (s, seg_len2 s)"
      using f True by (simp add: longer_alt)
    have none: "find ?P segs = None"
    proof (rule find_none)
      fix x assume "x \<in> set segs"
      then have "seg_len2 x < seg_len2 s" using ub True by fastforce
      then show "\<not> ?P x" by (simp add: list_all_iff)
    qed
    have "?P s" using ub True by (fastforce simp: list_all_iff)
    then have "first_longest (segs @ [s]) = Some s"
      using none by (simp add: first_longest_def find_append_alt)
    moreover have "\<forall>t \<in> set (segs @ [s]). seg_len2 t \<le> seg_len2 s"
      using ub True by fastforce
    moreover have "0 < seg_len2 s" using True m0 by linarith
    ultimately show ?thesis using r by simp
  next
    case False
    have r: "foldl longer ((zero3, zero3), 0) (segs @ [s]) = (n, m)"
      using f False by (simp add: longer_alt)
    have ub': "\<forall>t \<in> set (segs @ [s]). seg_len2 t \<le> m"
      using ub False by auto
    have pos': "0 < m \<longrightarrow> first_longest (segs @ [s]) = Some n \<and> seg_len2 n = m"
    proof
      assume "0 < m"
      then have fl: "find (\<lambda>x. list_all (\<lambda>t. seg_len2 t \<le> seg_len2 x) segs) segs = Some n"
        and ln: "seg_len2 n = m"
        using pos by (simp_all add: first_longest_def)
      have "?P n" using ub' ln by (simp add: list_all_iff)
      then have "find ?P segs = Some n"
        using fl by (intro find_stronger [OF fl]) (simp_all add: list_all_iff)
      then show "first_longest (segs @ [s]) = Some n \<and> seg_len2 n = m"
        using ln by (simp add: first_longest_def find_append_alt)
    qed
    show ?thesis using r m0 ub' pos' zero by simp
  qed
qed

lemma first_longest_all_zero:
  assumes "segs \<noteq> []" "\<forall>t \<in> set segs. seg_len2 t \<le> 0"
  shows "\<exists>n. first_longest segs = Some n \<and> fst n = snd n"
proof -
  obtain s rest where s: "segs = s # rest" using assms(1) by (cases segs) auto
  have z: "\<forall>t \<in> set segs. seg_len2 t = 0"
    using assms(2) seg_len2_nonneg by (auto intro: antisym)
  then have "list_all (\<lambda>t. seg_len2 t \<le> seg_len2 s) segs"
    using s by (simp add: list_all_iff)
  then have "first_longest segs = Some s"
    using s by (simp add: first_longest_def)
  moreover have "fst s = snd s" using z s seg_len2_zero by simp
  ultimately show ?thesis by blast
qed

lemma angle_degenerate: "fst n = snd n \<Longrightarrow> angle_of (orient_strict n) = 0"
  by (simp add: angle_of_def orient_strict_def atan2_def)

lemma segments_nonempty: "2 \<le> length geom \<Longrightarrow> ConstSegmentIterator geom True \<noteq> []"
  by (simp add: ConstSegmentIterator_def)

lemma rotation_of_first_longest:
  assumes "segs \<noteq> []"
  shows "\<exists>n. first_longest segs = Some n \<and>
    angle_of (orient_strict (fst (foldl longer ((zero3, zero3), 0) segs))) =
    angle_of (orient_strict n)"
proof -
  obtain n m where f: "foldl longer ((zero3, zero3), 0) segs = (n, m)" and m0: "0 \<le> m"
    and ub: "\<forall>t \<in> set segs. seg_len2 t \<le> m"
    and pos: "0 < m \<longrightarrow> first_longest segs = Some n \<and> seg_len2 n = m"
    and zero: "m = 0 \<longrightarrow> n = (zero3, zero3)"
    using scan_invariant [of segs] by blast
  show ?thesis
  proof (cases "0 < m")
    case True
    then show ?thesis using pos f by simp
  next
    case False
    then have m: "m = 0" using m0 by simp
    then obtain n' where n': "first_longest segs = Some n'" "fst n' = snd n'"
      using first_longest_all_zero [OF assms] ub by auto
    have "angle_of (orient_strict n) = 0"
      using zero m by (simp add: angle_degenerate)
    then show ?thesis using n' f by (simp add: angle_degenerate)
  qed
qed

subsection \<open>reset and push\<close>

lemma resetHeight_fields:
  "extrusionSymbol (resetHeight es f) = extrusionSymbol f"
  "style (resetHeight es f) = style f"
  "geodes (resetHeight es f) = geodes f"
  "mergeGeometry (resetHeight es f) = mergeGeometry f"
  "messages (resetHeight es f) = messages f"
  by (simp_all add: resetHeight_def Let_def split: option.splits)

lemma resetWallSymbols_fields:
  "extrusionSymbol (resetWallSymbols es sh f) = extrusionSymbol f"
  "style (resetWallSymbols es sh f) = style f"
  "geodes (resetWallSymbols es sh f) = geodes f"
  "mergeGeometry (resetWallSymbols es sh f) = mergeGeometry f"
  "messages (resetWallSymbols es sh f) = messages f"
  by (simp_all add: resetWallSymbols_def split: option.splits)

lemma resetRoofSymbols_fields:
  "extrusionSymbol (resetRoofSymbols es sh f) = extrusionSymbol f"
  "style (resetRoofSymbols es sh f) = style f"
  "geodes (resetRoofSymbols es sh f) = geodes f"
  "mergeGeometry (resetRoofSymbols es sh f) = mergeGeometry f"
  "messages (resetRoofSymbols es sh f) = messages f"
  by (simp_all add: resetRoofSymbols_def split: option.splits)

lemma backupSkin_fields:
  "extrusionSymbol (backupSkin f) = extrusionSymbol f"
  "style (backupSkin f) = style f"
  "geodes (backupSkin f) = geodes f"
  "mergeGeometry (backupSkin f) = mergeGeometry f"
  "messages (backupSkin f) = messages f"
  by (simp_all add: backupSkin_def Let_def split: option.splits)

lemma backupPoly_fields:
  "extrusionSymbol (backupPoly f) = extrusionSymbol f"
  "style (backupPoly f) = style f"
  "geodes (backupPoly f) = geodes f"
  "mergeGeometry (backupPoly f) = mergeGeometry f"
  "messages (backupPoly f) = messages f"
  by (simp_all add: backupPoly_def Let_def split: option.splits)

lemmas reset_blocks =
  resetHeight_fields resetWallSymbols_fields resetRoofSymbols_fields backupSkin_fields
  backupPoly_fields

lemma resetStyle_fields:
  "extrusionSymbol (resetStyle context f) = st_extrusion (style f)"
  "style (resetStyle context f) = style f"
  "geodes (resetStyle context f) = geodes f"
  "mergeGeometry (resetStyle context f) = mergeGeometry f"
  "messages (resetStyle context f) = messages f"
  "styleDirty (resetStyle context f) = False"
  by (simp_all add: resetStyle_def Let_def reset_blocks split: option.splits)

lemma reset_fields:
  "extrusionSymbol (reset context f) =
     (if styleDirty f then st_extrusion (style f) else extrusionSymbol f)"
  "style (reset context f) = style f"
  "geodes (reset context f) = []"
  "mergeGeometry (reset context f) = mergeGeometry f"
  "messages (reset context f) = messages f"
  "styleDirty (reset context f) = False"
  by (simp_all add: reset_def Let_def resetStyle_fields)

lemma reset_extrusionSymbol:
  "cache_ok f \<Longrightarrow> extrusionSymbol (reset context f) = st_extrusion (style f)"
  by (auto simp add: reset_fields cache_ok_def)

lemma cache_ok_newFilter: "cache_ok (newFilter st)"
  by (simp add: cache_ok_def newFilter_def)

lemma cache_ok_setStyle: "cache_ok (setStyle st f)"
  by (simp add: cache_ok_def setStyle_def)

lemma cache_ok_reset: "cache_ok f \<Longrightarrow> cache_ok (reset context f)"
  by (auto simp add: cache_ok_def reset_fields)

lemma process_nil: "process K [] context f = (True, f)"
  by (simp add: process_def)

lemma delocalize_group_cases:
  "createDelocalizeGroup f = Group [] \<or>
   createDelocalizeGroup f = MatrixTransform (m_local2world f) []"
  by (simp add: createDelocalizeGroup_def)

lemma addChildren_nil: "addChildren n [] = n"
  by (cases n) (simp_all add: addChildren_def)

lemma push_missing:
  "extrusionSymbol (reset context f) = None \<Longrightarrow>
   push K input context f =
     (Group [], (reset context f)\<lparr>messages := messages (reset context f) @ [missing_symbology]\<rparr>)"
  by (simp add: push_def Let_def)

lemma push_nil:
  assumes "extrusionSymbol (reset context f) \<noteq> None"
  shows "\<exists>g. (g = Group [] \<or> (\<exists>m. g = MatrixTransform m [])) \<and>
    fst (push K [] context f) = (if mergeGeometry f then optimize K g else g)"
proof -
  let ?f = "reset context f"
  obtain wl wm where w: "loadLibrary (styles context) (wallSkinSymbol ?f) ''wall'' = (wl, wm)"
    by (cases "loadLibrary (styles context) (wallSkinSymbol ?f) ''wall''") auto
  obtain rl rm where r: "loadLibrary (styles context) (roofSkinSymbol ?f) ''roof'' = (rl, rm)"
    by (cases "loadLibrary (styles context) (roofSkinSymbol ?f) ''roof''") auto
  obtain w2l l2w loc where c: "computeLocalizers K context = (w2l, l2w, loc)"
    by (cases "computeLocalizers K context") auto
  let ?f2 = "?f\<lparr>wallResLib := wl, roofResLib := rl, messages := messages ?f @ wm @ rm,
      m_world2local := w2l, m_local2world := l2w, localize := loc\<rparr>"
  have rf: "geodes ?f = []" "mergeGeometry ?f = mergeGeometry f"
    by (simp_all add: reset_fields)
  let ?g = "createDelocalizeGroup ?f2"
  obtain es where es: "extrusionSymbol ?f = Some es" using assms by auto
  have "fst (push K [] context f) = (if mergeGeometry f then optimize K ?g else ?g)"
    by (simp add: push_def Let_def w r c process_nil rf es addChildren_nil
        createDelocalizeGroup_def)
  moreover have "?g = Group [] \<or> (\<exists>m. ?g = MatrixTransform m [])"
    by (simp add: createDelocalizeGroup_def)
  ultimately show ?thesis by blast
qed

subsection \<open>The reversal of the base vertices\<close>

lemma nth_swap_at:
  "i < length a \<Longrightarrow> j < length a \<Longrightarrow> x < length a \<Longrightarrow>
   swap_at a i j ! x = (if x = j then a ! i else if x = i then a ! j else a ! x)"
  by (simp add: swap_at_def nth_list_update)

text \<open>The reversal loop from position 0, after \<open>k\<close> of its steps.\<close>

lemma reverse_steps:
  assumes "n \<le> length bv" "k \<le> n div 2"
  shows "length (foldl (\<lambda>a i. swap_at a i (0 + (n - 1) - i)) bv [0 ..< k]) = length bv \<and>
    (\<forall>x < length bv.
       foldl (\<lambda>a i. swap_at a i (0 + (n - 1) - i)) bv [0 ..< k] ! x =
         (if x < k \<or> (n - k \<le> x \<and> x < n) then bv ! (n - 1 - x) else bv ! x))"
  using assms(2)
proof (induction k)
  case 0
  show ?case by auto
next
  case (Suc k)
  let ?a = "foldl (\<lambda>a i. swap_at a i (0 + (n - 1) - i)) bv [0 ..< k]"
  have k: "k \<le> n div 2" "k < n div 2" using Suc.prems by simp_all
  have ih: "length ?a = length bv"
    "\<forall>x < length bv. ?a ! x = (if x < k \<or> (n - k \<le> x \<and> x < n) then bv ! (n - 1 - x) else bv ! x)"
    using Suc.IH [OF k(1)] by simp_all
  have b: "k < length ?a" "n - 1 - k < length ?a"
    using k(2) assms(1) ih(1) by simp_all
  have lt: "k < n - 1 - k" using k(2) by arith
  have step: "foldl (\<lambda>a i. swap_at a i (0 + (n - 1) - i)) bv [0 ..< Suc k] =
      swap_at ?a k (n - 1 - k)"
    by simp
  have ar: "k < n" "n - 1 - k < n" "\<not> n - k \<le> k" "\<not> n - k \<le> n - 1 - k"
    "\<not> n - 1 - k < k" "n - 1 - (n - 1 - k) = k"
    using lt by simp_all
  have ak: "?a ! k = bv ! k"
    using ih(2) [rule_format, of k] b(1) ih(1) ar by simp
  have an: "?a ! (n - 1 - k) = bv ! (n - 1 - k)"
    using ih(2) [rule_format, of "n - 1 - k"] b(2) ih(1) ar by simp
  have "\<forall>x < length bv. swap_at ?a k (n - 1 - k) ! x =
      (if x < Suc k \<or> (n - Suc k \<le> x \<and> x < n) then bv ! (n - 1 - x) else bv ! x)"
  proof (intro allI impI)
    fix x assume x: "x < length bv"
    have sw: "swap_at ?a k (n - 1 - k) ! x =
        (if x = n - 1 - k then ?a ! k else if x = k then ?a ! (n - 1 - k) else ?a ! x)"
      using nth_swap_at [OF b(1,2), of x] x ih(1) by simp
    consider (a) "x = k" | (b) "x = n - 1 - k" | (c) "x \<noteq> k" "x \<noteq> n - 1 - k" by blast
    then show "swap_at ?a k (n - 1 - k) ! x =
      (if x < Suc k \<or> (n - Suc k \<le> x \<and> x < n) then bv ! (n - 1 - x) else bv ! x)"
    proof cases
      case a
      then show ?thesis using sw an lt by simp
    next
      case b
      then show ?thesis using sw ak ar by simp
    next
      case c
      have "(x < Suc k \<or> (n - Suc k \<le> x \<and> x < n)) = (x < k \<or> (n - k \<le> x \<and> x < n))"
        using c lt by auto
      then show ?thesis using sw c ih(2) [rule_format, OF x] by simp
    qed
  qed
  then show ?case using ih(1) by (simp only: step length_swap_at)
qed

lemma reverseBase_first:
  assumes "n \<le> length bv"
  shows "reverseBase 0 n bv = rev (take n bv) @ drop n bv"
proof (rule nth_equalityI)
  let ?r = "foldl (\<lambda>a i. swap_at a i (0 + (n - 1) - i)) bv [0 ..< n div 2]"
  have r: "reverseBase 0 n bv = ?r" by (simp add: reverseBase_def)
  have s: "length ?r = length bv"
    "\<forall>x < length bv. ?r ! x =
       (if x < n div 2 \<or> (n - n div 2 \<le> x \<and> x < n) then bv ! (n - 1 - x) else bv ! x)"
    using reverse_steps [OF assms, of "n div 2"] by simp_all
  show "length (reverseBase 0 n bv) = length (rev (take n bv) @ drop n bv)"
    using assms by simp
  fix x assume "x < length (reverseBase 0 n bv)"
  then have x: "x < length bv" by simp
  show "reverseBase 0 n bv ! x = (rev (take n bv) @ drop n bv) ! x"
  proof (cases "x < n")
    case True
    have m: "\<not> (x < n div 2 \<or> n - n div 2 \<le> x) \<Longrightarrow> n - 1 - x = x"
      using True by linarith
    have "?r ! x = bv ! (n - 1 - x)"
      using s(2) x True m by (cases "x < n div 2 \<or> n - n div 2 \<le> x") auto
    moreover have "(rev (take n bv) @ drop n bv) ! x = bv ! (n - 1 - x)"
      using True assms by (simp add: nth_append rev_nth)
    ultimately show ?thesis by (simp only: r)
  next
    case False
    have "n div 2 \<le> n" by simp
    then have "\<not> x < n div 2" using False by linarith
    then have "?r ! x = bv ! x" using s(2) x False by simp
    moreover have "(rev (take n bv) @ drop n bv) ! x = bv ! x"
      using False assms x by (simp add: nth_append)
    ultimately show ?thesis by (simp only: r)
  qed
qed

lemma reverseBase_later: "n div 2 \<le> b \<Longrightarrow> reverseBase b n bv = bv"
  by (simp add: reverseBase_def)

text \<open>A shape of one part has its base vertices in reverse order.\<close>

lemma base_single_part_reversed:
  assumes "parts input = [ms]"
  shows "baseVerts (extrudeGeometry input h ho flat wr True wc rc ws rs c) =
    Some (rev (map (baseOut (mkLocals input h ho flat wr True ws c)) ms))"
  by (simp add: eg_baseVerts assms writeSeq_closed reverseBase_first)

text \<open>A later part that starts at or beyond half its own length stays in input order;
  so does every part that is not longer than what was written before it.\<close>

lemma base_second_part_kept:
  assumes "parts input = [ms, ns]" "length ns div 2 \<le> length ms"
  shows "baseVerts (extrudeGeometry input h ho flat wr True wc rc ws rs c) =
    Some (rev (map (baseOut (mkLocals input h ho flat wr True ws c)) ms) @
          map (baseOut (mkLocals input h ho flat wr True ws c)) ns)"
  using assms(2)
  by (simp add: eg_baseVerts assms(1) writeSeq_closed reverseBase_first reverseBase_later)

lemma processPart_shape:
  "\<exists>a b. processPart K c i f p = f\<lparr>randCalls := a, geodes := b\<rparr>"
proof (cases "extrusionSymbol f")
  case None
  have "processPart K c i f p = f\<lparr>randCalls := randCalls f, geodes := geodes f\<rparr>"
    using None by (simp add: processPart_def)
  then show ?thesis by blast
next
  case (Some es)
  have "processPart K c i f p = f\<lparr>randCalls := randCalls (processPart K c i f p),
      geodes := geodes (processPart K c i f p)\<rparr>"
    using Some by (simp add: processPart_def Let_def split: prod.splits)
  then show ?thesis by blast
qed

lemma processPart_fields:
  "extrusionSymbol (processPart K c i f p) = extrusionSymbol f"
  "style (processPart K c i f p) = style f"
  "styleDirty (processPart K c i f p) = styleDirty f"
  "mergeGeometry (processPart K c i f p) = mergeGeometry f"
  "featureNameExpr (processPart K c i f p) = featureNameExpr f"
  "messages (processPart K c i f p) = messages f"
proof -
  obtain a b where "processPart K c i f p = f\<lparr>randCalls := a, geodes := b\<rparr>"
    using processPart_shape by blast
  then show "extrusionSymbol (processPart K c i f p) = extrusionSymbol f"
    "style (processPart K c i f p) = style f"
    "styleDirty (processPart K c i f p) = styleDirty f"
    "mergeGeometry (processPart K c i f p) = mergeGeometry f"
    "featureNameExpr (processPart K c i f p) = featureNameExpr f"
    "messages (processPart K c i f p) = messages f"
    by simp_all
qed

lemma process_fields:
  "extrusionSymbol (snd (process K fs c f)) = extrusionSymbol f \<and>
   style (snd (process K fs c f)) = style f \<and>
   styleDirty (snd (process K fs c f)) = styleDirty f"
proof -
  have inner: "extrusionSymbol (foldl (processPart K c i) g ps) = extrusionSymbol g \<and>
      style (foldl (processPart K c i) g ps) = style g \<and>
      styleDirty (foldl (processPart K c i) g ps) = styleDirty g" for i g ps
    by (induction ps arbitrary: g) (simp_all add: processPart_fields)
  have "extrusionSymbol (foldl (\<lambda>f input. foldl (processPart K c input) f (f_parts input)) g fs)
        = extrusionSymbol g \<and>
      style (foldl (\<lambda>f input. foldl (processPart K c input) f (f_parts input)) g fs) = style g \<and>
      styleDirty (foldl (\<lambda>f input. foldl (processPart K c input) f (f_parts input)) g fs)
        = styleDirty g" for g
    by (induction fs arbitrary: g) (simp_all add: inner)
  then show ?thesis by (simp add: process_def)
qed

lemma cache_ok_push: "cache_ok f \<Longrightarrow> cache_ok (snd (push K input context f))"
proof -
  assume ok: "cache_ok f"
  let ?f = "reset context f"
  have e: "extrusionSymbol ?f = st_extrusion (style f)"
    using ok by (rule reset_extrusionSymbol)
  have e2: "style ?f = style f" "styleDirty ?f = False"
    by (simp_all add: reset_fields)
  show ?thesis
  proof (cases "extrusionSymbol ?f")
    case None
    then show ?thesis using e e2 by (simp add: push_missing cache_ok_def)
  next
    case (Some es)
    obtain wl wm where w: "loadLibrary (styles context) (wallSkinSymbol ?f) ''wall'' = (wl, wm)"
      by (cases "loadLibrary (styles context) (wallSkinSymbol ?f) ''wall''") auto
    obtain rl rm where r: "loadLibrary (styles context) (roofSkinSymbol ?f) ''roof'' = (rl, rm)"
      by (cases "loadLibrary (styles context) (roofSkinSymbol ?f) ''roof''") auto
    obtain w2l l2w loc where c: "computeLocalizers K context = (w2l, l2w, loc)"
      by (cases "computeLocalizers K context") auto
    let ?f2 = "?f\<lparr>wallResLib := wl, roofResLib := rl, messages := messages ?f @ wm @ rm,
      m_world2local := w2l, m_local2world := l2w, localize := loc\<rparr>"
    obtain ok' f3 where p: "process K input context ?f2 = (ok', f3)"
      by (cases "process K input context ?f2") auto
    have "extrusionSymbol f3 = extrusionSymbol ?f2" "style f3 = style ?f2"
      using process_fields [of K input "context" ?f2] p by simp_all
    then have f3: "extrusionSymbol f3 = st_extrusion (style f3)"
      using e e2 by simp
    show ?thesis
      using f3 by (simp add: push_def Let_def Some w r c p cache_ok_def)
  qed
qed



text \<open>A run of \<open>push\<close> that produces geometry: one polygon feature gives one geode
  without state set, holding the walls and the roof.\<close>

lemma push_tri_feature:
  "map (\<lambda>g. (g_stateSet g, length (g_drawables g)))
     (children (fst (push plain_collaborators [tri_feature] flat_cx
        (setStyle extrusion_style (newFilter plain_style))))) = [(None, 2)]"
proof -
  let ?f0 = "setStyle extrusion_style (newFilter plain_style)"
  let ?f = "reset flat_cx ?f0"
  obtain es where es: "extrusionSymbol ?f = Some es" "es_height es = 10"
    "es_heightExpression es = None" "es_flatten es"
    by (simp add: reset_fields setStyle_def newFilter_def extrusion_style_def)
  have sk: "wallSkinSymbol ?f = None" "roofSkinSymbol ?f = None"
    "wallPolygonSymbol ?f = None" "roofPolygonSymbol ?f = None"
    "heightCallback ?f = None" "heightOffsetExpr ?f = None" "featureNameExpr ?f = []"
    "mergeGeometry ?f" "geodes ?f = []"
    by (simp_all add: reset_def resetStyle_def resetHeight_def resetWallSymbols_def
        resetRoofSymbols_def namedStyle_def backupSkin_def backupPoly_def Let_def
        setStyle_def newFilter_def extrusion_style_def)
  have m: "made_geom (extrudeGeometry tri_polygon h ho fl wr wb wc rc ws rs c)"
    for h ho fl wr wb wc rc ws rs c
    by (simp add: eg_made_geom tri_polygon_def tri_def)
  have ct: "componentType tri_polygon = TYPE_POLYGON" by (simp add: tri_polygon_def)
  have l: "loadLibrary (styles flat_cx) x y = (None, [])" for x y
    by (simp add: loadLibrary_def flat_cx_def)
  let ?f2 = "?f\<lparr>wallResLib := None, roofResLib := None, messages := messages ?f @ [] @ [],
      m_world2local := (\<lambda>v. v), m_local2world := (\<lambda>v. v), localize := False\<rparr>"
  have p: "map (\<lambda>x. (g_stateSet (snd x), length (g_drawables (snd x))))
      (geodes (processPart plain_collaborators flat_cx tri_feature ?f2 tri_polygon)) = [(None, 2)]"
    by (simp add: processPart_def Let_def es sk m plain_collaborators_def ct
        addDrawable_def geodeFor_def)
  show ?thesis
    using p
    by (simp add: push_def Let_def es sk l process_def tri_feature_def processPart_fields
        plain_collaborators_def createDelocalizeGroup_def addChildren_def comp_def
        case_prod_beta)
qed

text \<open>The number of indices of a shape of several parts: a polygon has six per point,
  any other shape six per point but the last of each part.\<close>

lemma wallPrims_index_count:
  "sum_list (map (\<lambda>p. length (indices p)) (wallPrims poly w ps)) =
     sum_list (map (\<lambda>p. if poly then 6 * length p else 6 * (length p - 1)) ps)"
  by (induction ps arbitrary: w) (simp_all add: length_partIdx)

lemma parts_index_count:
  "sum_list (map (\<lambda>p. length (indices p))
     (walls_primitiveSets (extrudeGeometry input h ho flat wr wb wc rc ws rs c))) =
   sum_list (map (\<lambda>p. if componentType input = TYPE_POLYGON then 6 * length p
                        else 6 * (length p - 1)) (parts input))"
  by (simp add: eg_walls_primitiveSets wallPrims_index_count)

lemma tex_div_clamp:
  "fdiv (Some mh) (Some th) = Some q \<Longrightarrow>
   tex_div mh th = Some (if osg_round q = 0 then 1 else osg_round q)"
  by (simp add: tex_div_def Let_def)

lemma eg_texcoords_length:
  "\<exists>t. texcoords (extrudeGeometry input h ho flat wr wb wc rc (Some w) rs c) = Some t \<and>
       length t = 2 * length (concat (parts input))"
proof -
  let ?L = "mkLocals input h ho flat wr wb (Some w) c"
  obtain t where t: "texcoords (extrudeGeometry input h ho flat wr wb wc rc (Some w) rs c) = Some t"
    and mt: "map tv t = concat (map (vPair ?L) (concat (parts input)))"
    using eg_texV [of input h ho flat wr wb wc rc w rs c] by auto
  have "length (map tv t) = 2 * length (concat (parts input))"
    by (simp only: mt) (simp add: length_concat_blocks len_vPair)
  then show ?thesis using t by simp
qed

section \<open>The claims\<close>

text \<open>
  Claim C1.  For a shape of one part with \<open>n\<close> points (at least one; the claim asks for
  three in a polygon and two in a line) the wall mesh has \<open>2 * n\<close> vertices.  For a
  POLYGON shape its one primitive set has \<open>6 * n\<close> indices, that is \<open>2 * n\<close> triangles:
  the two triangles of each of the \<open>n - 1\<close> segments and then the two closing triangles
  \<open>(2n-2, 2n-1, 0)\<close> and \<open>(2n-1, 1, 0)\<close>.  For a shape of any other component type (a
  line) it has \<open>6 * (n - 1)\<close> indices, that is \<open>2 * (n - 1)\<close> triangles, the segment
  triangles only.
\<close>

theorem wall_mesh_counts:
  assumes "parts input = [ms]" and "1 \<le> length ms"
    and "r = extrudeGeometry input h ho flat wr wb wc rc ws rs c"
    and "n = length ms"
  shows "length (verts r) = 2 * n \<and>
    (componentType input = TYPE_POLYGON \<longrightarrow>
       (\<exists>ix. walls_primitiveSets r = [DrawElementsUInt ix] \<and> length ix = 6 * n \<and>
          ix = concat (map (\<lambda>k. [2 * k, 2 * k + 1, 2 * k + 2, 2 * k + 1, 2 * k + 3, 2 * k + 2])
                   [0 ..< n - 1]) @
               [2 * n - 2, 2 * n - 1, 0, 2 * n - 1, 1, 0])) \<and>
    (componentType input \<noteq> TYPE_POLYGON \<longrightarrow>
       (\<exists>ix. walls_primitiveSets r = [DrawElementsUInt ix] \<and> length ix = 6 * (n - 1) \<and>
          ix = concat (map (\<lambda>k. [2 * k, 2 * k + 1, 2 * k + 2, 2 * k + 1, 2 * k + 3, 2 * k + 2])
                   [0 ..< n - 1])))"
proof -
  have v: "length (verts r) = 2 * n"
    using assms by (simp add: eg_length_verts)
  have w: "walls_primitiveSets r =
      [DrawElementsUInt (partIdx (componentType input = TYPE_POLYGON) 0 0 n)]"
    using assms by (simp add: eg_walls_primitiveSets)
  have n0: "0 < n" using assms(2,4) by (cases ms) auto
  have c: "2 * (n - 1) = 2 * n - 2" "Suc (2 * (n - 1)) = 2 * n - 1"
    using n0 by simp_all
  have p: "componentType input = TYPE_POLYGON \<Longrightarrow>
      partIdx (componentType input = TYPE_POLYGON) 0 0 n =
        concat (map (\<lambda>k. [2 * k, 2 * k + 1, 2 * k + 2, 2 * k + 1, 2 * k + 3, 2 * k + 2])
                   [0 ..< n - 1]) @
               [2 * n - 2, 2 * n - 1, 0, 2 * n - 1, 1, 0]"
    using n0 c by (simp add: partIdx_def closeIdx_def segIdx_def)
  have l: "componentType input \<noteq> TYPE_POLYGON \<Longrightarrow>
      partIdx (componentType input = TYPE_POLYGON) 0 0 n =
        concat (map (\<lambda>k. [2 * k, 2 * k + 1, 2 * k + 2, 2 * k + 1, 2 * k + 3, 2 * k + 2])
                   [0 ..< n - 1])"
    by (simp add: partIdx_def segIdx_def)
  have lp: "componentType input = TYPE_POLYGON \<Longrightarrow>
      length (partIdx (componentType input = TYPE_POLYGON) 0 0 n) = 6 * n"
    by (simp add: length_partIdx)
  have ll: "componentType input \<noteq> TYPE_POLYGON \<Longrightarrow>
      length (partIdx (componentType input = TYPE_POLYGON) 0 0 n) = 6 * (n - 1)"
    by (simp add: length_partIdx)
  show ?thesis
    using v w p l lp ll by (cases "componentType input = TYPE_POLYGON") simp_all
qed

theorem wall_mesh_counts_witness:
  "length (verts (extrudeGeometry tri_polygon 10 0 False True False white white None None flat_cx)) = 6 \<and>
   walls_primitiveSets (extrudeGeometry tri_polygon 10 0 False True False white white None None flat_cx) =
     [DrawElementsUInt [0, 1, 2, 1, 3, 2, 2, 3, 4, 3, 5, 4, 4, 5, 0, 5, 1, 0]] \<and>
   length (verts (extrudeGeometry tri_line 10 0 False True False white white None None flat_cx)) = 6 \<and>
   walls_primitiveSets (extrudeGeometry tri_line 10 0 False True False white white None None flat_cx) =
     [DrawElementsUInt [0, 1, 2, 1, 3, 2, 2, 3, 4, 3, 5, 4]]"
proof -
  have u: "[0..<2] = [0, Suc 0]" by (simp add: upt_rec)
  have a: "parts tri_polygon = [tri]" "parts tri_line = [tri]" "1 \<le> length tri" "3 = length tri"
    "componentType tri_polygon = TYPE_POLYGON" "componentType tri_line \<noteq> TYPE_POLYGON"
    by (simp_all add: tri_polygon_def tri_line_def tri_def)
  show ?thesis
    using wall_mesh_counts [OF a(1) a(3) refl a(4), of 10 0 False True False white white None None flat_cx]
      wall_mesh_counts [OF a(2) a(3) refl a(4), of 10 0 False True False white white None None flat_cx]
      a(5,6)
    by (simp add: u)
qed

text \<open>
  Claim C2.  With \<open>flatten = true\<close> on a map that is not geocentric, every roof vertex
  (the even entries of the wall vertex array, and the entries of the roof vertex array
  when a roof is requested) has the elevation \<open>max (z + height) - offset\<close>, the maximum
  being taken over the points of all parts of the shape.  The sums \<open>z + height\<close> are
  assumed not to fall below \<open>-DBL_MAX\<close>, the value the search starts from.
\<close>

theorem flatten_roof_elevation:
  assumes "\<not> isGeocentric c"
    and "\<forall>p \<in> set (concat (parts input)). - DBL_MAX \<le> vz p + h"
    and "r = extrudeGeometry input h ho True wr wb wc rc ws rs c"
    and "k < length (concat (parts input))"
    and "e = Max ((\<lambda>p. vz p + h) ` set (concat (parts input))) - ho"
  shows "vz (verts r ! (2 * k)) = e \<and>
    (if wr then \<exists>a. roofVerts r = Some a \<and> length a = length (concat (parts input)) \<and>
                      vz (a ! k) = e
     else roofVerts r = None)"
proof -
  let ?L = "mkLocals input h ho True wr wb ws c"
  let ?ms = "concat (parts input)"
  have ne: "?ms \<noteq> []" using assms(4) by (metis less_nat_zero_code list.size(3))
  have t: "targetLen ?L = e"
    using zfinder_target [OF refl ne assms(2)] assms(5) by (simp add: locals_fields)
  have f: "flatten ?L" "\<not> makeECEF ?L" using assms(1) by (simp_all add: locals_fields)
  have 1: "vz (verts r ! (2 * k)) = e"
    using eg_verts_nth [OF assms(4), of h ho True wr wb wc rc ws rs c] assms(3)
      roofOut_flat [OF f] t by simp
  have 2: "wr \<Longrightarrow> roofVerts r = Some (map (roofOut ?L) ?ms)"
    using assms(3) by (simp add: eg_roofVerts)
  have 3: "vz (map (roofOut ?L) ?ms ! k) = e"
    using assms(4) roofOut_flat [OF f] t by simp
  have 4: "\<not> wr \<Longrightarrow> roofVerts r = None"
    using assms(3) by (simp add: eg_roofVerts)
  show ?thesis using 1 2 3 4 by (cases wr) simp_all
qed

theorem flatten_roof_elevation_witness:
  "map vz (verts (extrudeGeometry two_part_polygon 10 1 True True False white white None None flat_cx))
     = [11, 0, 11, 0, 11, 0, 11, 2, 11, 2, 11, 2] \<and>
   vz (verts (extrudeGeometry two_part_polygon 10 1 True True False white white None None flat_cx) ! (2 * 0)) = 11 \<and>
   vz (verts (extrudeGeometry two_part_polygon 10 1 True True False white white None None flat_cx) ! (2 * 4)) = 11 \<and>
   (\<exists>a. roofVerts (extrudeGeometry two_part_polygon 10 1 True True False white white None None flat_cx) = Some a \<and>
        length a = 6 \<and> vz (a ! 0) = 11) \<and>
   (\<exists>a. roofVerts (extrudeGeometry two_part_polygon 10 1 True True False white white None None flat_cx) = Some a \<and>
        length a = 6 \<and> vz (a ! 4) = 11)"
proof -
  have g: "\<not> isGeocentric flat_cx" by (simp add: flat_cx_def)
  have ps: "concat (parts two_part_polygon) =
      [Vec3 0 0 0, Vec3 1 0 0, Vec3 1 1 0, Vec3 5 5 2, Vec3 6 5 2, Vec3 6 6 2]"
    by (simp add: two_part_polygon_def tri_def hole_def)
  have b: "\<forall>p \<in> set (concat (parts two_part_polygon)). - DBL_MAX \<le> vz p + 10"
    using DBL_MAX_pos by (simp add: ps)
  have k: "0 < length (concat (parts two_part_polygon))" "4 < length (concat (parts two_part_polygon))"
    by (simp_all add: ps)
  have e: "(11::real) = Max ((\<lambda>p. vz p + 10) ` set (concat (parts two_part_polygon))) - 1"
    by (simp add: ps)
  have m: "map vz (verts (extrudeGeometry two_part_polygon 10 1 True True False white white None None flat_cx))
     = [11, 0, 11, 0, 11, 0, 11, 2, 11, 2, 11, 2]"
    using zfinder_target [OF refl _ b] e
    by (simp add: eg_verts ps wallPair_def roofOut_def baseOut_def roofPt_of_def locals_fields g)
  have len6: "length (concat (parts two_part_polygon)) = 6" by (simp add: ps)
  show ?thesis
    using flatten_roof_elevation [OF g b refl k(1) e, of True False white white None None,
        unfolded len6]
      flatten_roof_elevation [OF g b refl k(2) e, of True False white white None None,
        unfolded len6] m
    by simp
qed

text \<open>
  Claim C3.  With a wall skin, the texture V coordinate of the roof vertex of the
  \<open>k\<close>-th point pair is 0 and that of its base vertex is
  \<open>- segmentHeight / adjustedTileHeight\<close>, where \<open>segmentHeight\<close> is the adjusted tile
  height when the skin is not tiled and the distance between the two emitted vertices
  when it is.
\<close>

theorem wall_texture_v:
  assumes "r = extrudeGeometry input h ho flat wr wb wc rc (Some w) rs c"
    and "adj = tex_height_m_adj (mkLocals input h ho flat wr wb (Some w) c)"
    and "k < length (concat (parts input))"
    and "segmentHeight =
      (if isTiled w then Some (vlength (vsub (verts r ! (2 * k)) (verts r ! (2 * k + 1))))
       else adj)"
  shows "\<exists>t. texcoords r = Some t \<and> length t = 2 * length (concat (parts input)) \<and>
      tv (t ! (2 * k)) = Some 0 \<and>
      tv (t ! (2 * k + 1)) = fdiv (fneg segmentHeight) adj"
proof -
  let ?L = "mkLocals input h ho flat wr wb (Some w) c"
  let ?m = "concat (parts input) ! k"
  have v: "verts r ! (2 * k) = roofOut ?L ?m" "verts r ! Suc (2 * k) = baseOut ?L ?m"
    using eg_verts_nth [OF assms(3), of h ho flat wr wb wc rc "Some w" rs c] assms(1)
    by simp_all
  have "baseV ?L ?m = fdiv (fneg segmentHeight) adj"
    by (simp add: baseV_def assms(2,4) v fneg_if locals_fields)
  then show ?thesis
    using eg_texV_nth [OF assms(3), of h ho flat wr wb wc rc w rs c] assms(1) by simp
qed

theorem wall_texture_v_witness:
  "(\<exists>t. texcoords (extrudeGeometry tri_polygon 10 0 False True False white white
            (Some stretch_skin) None flat_cx) = Some t \<and>
        length t = 6 \<and> tv (t ! 0) = Some 0 \<and> tv (t ! 1) = Some (- 1)) \<and>
   (\<exists>t. texcoords (extrudeGeometry tri_polygon 10 0 False True False white white
            (Some tiled_skin) None flat_cx) = Some t \<and>
        length t = 6 \<and> tv (t ! 0) = Some 0 \<and> tv (t ! 1) = Some (- 10))"
proof -
  have k: "0 < length (concat (parts tri_polygon))"
    and len: "length (concat (parts tri_polygon)) = 3"
    by (simp_all add: tri_polygon_def tri_def)
  have a: "tex_height_m_adj (mkLocals tri_polygon 10 0 False True False (Some stretch_skin) flat_cx) = Some 1"
    "tex_height_m_adj (mkLocals tri_polygon 10 0 False True False (Some tiled_skin) flat_cx) = Some 1"
    by (simp_all add: adj_tri stretch_skin_def tiled_skin_def)
  have s: "\<not> isTiled stretch_skin" "isTiled tiled_skin"
    by (simp_all add: stretch_skin_def tiled_skin_def)
  have d: "vlength (vsub (Vec3 0 0 10) (Vec3 0 0 0)) = 10"
    by (simp add: vlength_def vsub_def length2_def sqrt_100)
  show ?thesis
    using wall_texture_v [OF refl refl k refl, of 10 0 False True False white white
        stretch_skin None flat_cx, unfolded len]
      wall_texture_v [OF refl refl k refl, of 10 0 False True False white white
        tiled_skin None flat_cx, unfolded len]
    by (simp add: a s d verts_tri_01 fdiv_def fneg_def)
qed

text \<open>
  Claim C10.  When the wall skin is not tiled and the adjusted tile height is a non-zero
  number, the V coordinate of every base vertex is exactly \<open>-1\<close>, whatever the height of
  the wall at that point.
\<close>

theorem stretch_mode_v:
  assumes "r = extrudeGeometry input h ho flat wr wb wc rc (Some w) rs c"
    and "\<not> isTiled w"
    and "tex_height_m_adj (mkLocals input h ho flat wr wb (Some w) c) = Some a"
    and "a \<noteq> 0"
    and "k < length (concat (parts input))"
  shows "\<exists>t. texcoords r = Some t \<and> tv (t ! (2 * k + 1)) = Some (- 1)"
proof -
  let ?L = "mkLocals input h ho flat wr wb (Some w) c"
  have "baseV ?L (concat (parts input) ! k) = Some (- 1)"
    using assms(2,3) fdiv_self [OF assms(4)] by (simp add: baseV_def locals_fields)
  then show ?thesis
    using eg_texV_nth [OF assms(5), of h ho flat wr wb wc rc w rs c] assms(1) by auto
qed

theorem stretch_mode_v_witness:
  "\<exists>t. texcoords (extrudeGeometry tri_polygon 10 0 False True False white white
            (Some stretch_skin) None flat_cx) = Some t \<and> tv (t ! (2 * 2 + 1)) = Some (- 1)"
proof -
  have k: "2 < length (concat (parts tri_polygon))"
    by (simp add: tri_polygon_def tri_def)
  have a: "tex_height_m_adj (mkLocals tri_polygon 10 0 False True False (Some stretch_skin) flat_cx) = Some 1"
    by (simp add: adj_tri stretch_skin_def)
  have s: "\<not> isTiled stretch_skin" by (simp add: stretch_skin_def)
  have n: "(1::real) \<noteq> 0" by simp
  show ?thesis
    by (rule stretch_mode_v [OF refl s a n k])
qed

text \<open>
  Claim C9.  With a roof and a roof skin, the roof texture coordinate array has one
  entry per point and every entry is still the default \<open>(0, 0)\<close> when the function
  returns; the rotation is computed by \<open>getApparentRotation\<close> and kept in a local
  variable only.
\<close>

theorem roof_texcoords_default:
  assumes "r = extrudeGeometry input h ho flat True wb wc rc ws (Some sk) c"
  shows "topTexcoords r = Some (replicate (getTotalPointCount input) (Vec2 (Some 0) (Some 0))) \<and>
    roofRotation r = getApparentRotation (asVector input)"
  using assms by (simp add: eg_topTexcoords eg_roofRotation zero2_def)


theorem roof_texcoords_default_witness:
  "topTexcoords (extrudeGeometry tri_polygon 10 0 False True False white white None
      (Some stretch_skin) flat_cx) =
     Some [Vec2 (Some 0) (Some 0), Vec2 (Some 0) (Some 0), Vec2 (Some 0) (Some 0)] \<and>
   roofRotation (extrudeGeometry tri_polygon 10 0 False True False white white None
      (Some stretch_skin) flat_cx) = getApparentRotation tri"
proof -
  have n: "getTotalPointCount tri_polygon = 3" "asVector tri_polygon = tri"
    by (simp_all add: getTotalPointCount_def tri_polygon_def tri_def)
  show ?thesis
    using roof_texcoords_default [OF refl, of tri_polygon 10 0 False False white white None
        stretch_skin flat_cx]
    by (simp add: n numeral_3_eq_3)
qed

text \<open>
  Claim C6, as amended.  A part without points adds no vertex, no texture coordinate
  and no index: the arrays, the counters and the returned flag are those of the same
  shape without that part, and the other parts are processed as they are without it.
  What the empty part leaves is one empty primitive set in each geometry.  (A part of
  one point is not skipped, see the counterexample.)
\<close>

theorem empty_part_adds_nothing:
  assumes "parts input = ps1 @ [] # ps2"
    and "r = extrudeGeometry input h ho flat wr wb wc rc ws rs c"
    and "r' = extrudeGeometry (input\<lparr>parts := ps1 @ ps2\<rparr>) h ho flat wr wb wc rc ws rs c"
  shows "verts r = verts r' \<and> texcoords r = texcoords r' \<and> roofVerts r = roofVerts r' \<and>
    baseVerts r = baseVerts r' \<and> made_geom r = made_geom r' \<and>
    walls_primitiveSets r =
      take (length ps1) (walls_primitiveSets r') @ DrawElementsUInt [] #
      drop (length ps1) (walls_primitiveSets r') \<and>
    roof_primitiveSets r =
      (if wr then take (length ps1) (roof_primitiveSets r') @
         DrawArrays (length (concat ps1)) 0 # drop (length ps1) (roof_primitiveSets r')
       else []) \<and>
    base_primitiveSets r =
      (if wb then take (length ps1) (base_primitiveSets r') @
         DrawArrays (length (concat ps1)) 0 # drop (length ps1) (base_primitiveSets r')
       else [])"
proof -
  have n: "noPrims r = noPrims r'"
    using eg_skip_empty [OF assms(1)] assms(2,3) by simp
  have a: "verts r = verts r'" "texcoords r = texcoords r'" "roofVerts r = roofVerts r'"
    "baseVerts r = baseVerts r'" "made_geom r = made_geom r'"
    using arg_cong [OF n, of verts] arg_cong [OF n, of texcoords] arg_cong [OF n, of roofVerts]
      arg_cong [OF n, of baseVerts] arg_cong [OF n, of made_geom]
    by (simp_all add: noPrims_fields)
  have w: "walls_primitiveSets r =
      take (length ps1) (walls_primitiveSets r') @ DrawElementsUInt [] #
      drop (length ps1) (walls_primitiveSets r')"
    by (simp add: assms eg_walls_primitiveSets wallPrims_append length_wallPrims partIdx_def)
  have f: "roof_primitiveSets r =
      (if wr then take (length ps1) (roof_primitiveSets r') @
         DrawArrays (length (concat ps1)) 0 # drop (length ps1) (roof_primitiveSets r')
       else [])"
    by (simp add: assms eg_roof_primitiveSets loopPrims_append length_loopPrims)
  have b: "base_primitiveSets r =
      (if wb then take (length ps1) (base_primitiveSets r') @
         DrawArrays (length (concat ps1)) 0 # drop (length ps1) (base_primitiveSets r')
       else [])"
    by (simp add: assms eg_base_primitiveSets loopPrims_append length_loopPrims)
  show ?thesis using a w f b by simp
qed


theorem empty_part_adds_nothing_witness:
  "verts (extrudeGeometry with_empty_part 10 0 False True True white white None None flat_cx) =
     verts (extrudeGeometry two_part_polygon 10 0 False True True white white None None flat_cx) \<and>
   texcoords (extrudeGeometry with_empty_part 10 0 False True True white white None None flat_cx) =
     texcoords (extrudeGeometry two_part_polygon 10 0 False True True white white None None flat_cx) \<and>
   roofVerts (extrudeGeometry with_empty_part 10 0 False True True white white None None flat_cx) =
     roofVerts (extrudeGeometry two_part_polygon 10 0 False True True white white None None flat_cx) \<and>
   baseVerts (extrudeGeometry with_empty_part 10 0 False True True white white None None flat_cx) =
     baseVerts (extrudeGeometry two_part_polygon 10 0 False True True white white None None flat_cx) \<and>
   walls_primitiveSets
       (extrudeGeometry with_empty_part 10 0 False True True white white None None flat_cx) =
     take 1 (walls_primitiveSets
       (extrudeGeometry two_part_polygon 10 0 False True True white white None None flat_cx)) @
     DrawElementsUInt [] #
     drop 1 (walls_primitiveSets
       (extrudeGeometry two_part_polygon 10 0 False True True white white None None flat_cx)) \<and>
   roof_primitiveSets
       (extrudeGeometry with_empty_part 10 0 False True True white white None None flat_cx) =
     take 1 (roof_primitiveSets
       (extrudeGeometry two_part_polygon 10 0 False True True white white None None flat_cx)) @
     DrawArrays 3 0 #
     drop 1 (roof_primitiveSets
       (extrudeGeometry two_part_polygon 10 0 False True True white white None None flat_cx))"
proof -
  have p: "parts with_empty_part = [tri] @ [] # [hole]"
    by (simp add: with_empty_part_def)
  have i: "with_empty_part\<lparr>parts := [tri] @ [hole]\<rparr> = two_part_polygon"
    by (simp add: with_empty_part_def two_part_polygon_def)
  have l: "length [tri] = 1" "length (concat [tri]) = 3"
    by (simp_all add: tri_def)
  show ?thesis
    using empty_part_adds_nothing [OF p refl refl, of 10 0 False True True white white None None
        flat_cx, unfolded i l]
    by simp
qed

text \<open>
  The claim C6 as it was stated fails for a part of one point: the loop body runs once,
  writes the roof and base vertex of the pair, a roof and a base vertex when these are
  requested and, in a polygon, the two closing triangles over the pair.
\<close>

theorem one_point_part_counterexample:
  "verts (extrudeGeometry point_polygon 10 0 False True True white white None None flat_cx) =
     [Vec3 0 0 10, Vec3 0 0 0] \<and>
   walls_primitiveSets
       (extrudeGeometry point_polygon 10 0 False True True white white None None flat_cx) =
     [DrawElementsUInt [0, 1, 0, 1, 1, 0]] \<and>
   roofVerts (extrudeGeometry point_polygon 10 0 False True True white white None None flat_cx) =
     Some [Vec3 0 0 10] \<and>
   roof_primitiveSets
       (extrudeGeometry point_polygon 10 0 False True True white white None None flat_cx) =
     [DrawArrays 0 1] \<and>
   baseVerts (extrudeGeometry point_polygon 10 0 False True True white white None None flat_cx) =
     Some [Vec3 0 0 0] \<and>
   base_primitiveSets
       (extrudeGeometry point_polygon 10 0 False True True white white None None flat_cx) =
     [DrawArrays 0 1] \<and>
   made_geom (extrudeGeometry point_polygon 10 0 False True True white white None None flat_cx)"
  by (simp add: eg_verts eg_walls_primitiveSets eg_roofVerts eg_roof_primitiveSets eg_baseVerts
      eg_base_primitiveSets eg_made_geom point_polygon_def wallPair_def roofOut_def baseOut_def
      roofPt_of_def locals_fields flat_cx_def partIdx_def closeIdx_def reverseBase_def zero3_def)

text \<open>
  Claim C4 (a defect of the code).  The loop that reverses the base vertices of a part
  starts its counter at \<open>basePartPtr\<close> but bounds it by \<open>len / 2\<close>, not by
  \<open>basePartPtr + len / 2\<close>.  It reverses the first part and leaves a later part as it was
  written: for the parts \<open>(0,0,0), (1,0,0), (1,1,0)\<close> and \<open>(5,5,2), (6,5,2), (6,6,2)\<close> the
  base array holds the first part reversed and the second in input order.
\<close>

theorem base_reversal_second_part:
  "baseVerts (extrudeGeometry two_part_polygon 10 0 False False True white white None None
      flat_cx) =
     Some [Vec3 1 1 0, Vec3 1 0 0, Vec3 0 0 0, Vec3 5 5 2, Vec3 6 5 2, Vec3 6 6 2]"
proof -
  have u: "[0..<Suc 0] = [0]" "[3..<Suc 0] = []" by (simp_all add: upt_rec)
  have r: "replicate 6 zero3 = [zero3, zero3, zero3, zero3, zero3, zero3]"
    by (simp add: numeral_eq_Suc)
  show ?thesis
    by (simp add: eg_baseVerts two_part_polygon_def tri_def hole_def r baseOut_def
        locals_fields flat_cx_def reverseBase_def swap_at_def u)
qed

text \<open>
  Claim C7.  The divisor \<open>div\<close> of the texture height normalisation is
  \<open>round (maxHeight / tileHeight)\<close>, replaced by 1 when that is 0, so it is never zero
  and \<open>maxHeight / div\<close>, the adjusted tile height, is never a division by zero.  The
  V coordinates that are computed from it are numbers of the floating-point arithmetic
  (possibly an infinity or a NaN, when the adjusted tile height itself is zero), never
  a fault: with a wall skin the function writes the whole array of texture coordinates,
  the V coordinate of every roof vertex is 0, and it returns its flag, which depends on
  the number of points only; there is no error result.
\<close>

theorem tex_height_guard:
  assumes "r = extrudeGeometry input h ho flat wr wb wc rc (Some w) rs c"
    and "L = mkLocals input h ho flat wr wb (Some w) c"
    and "maxHeight = targetLen L - vz (minLoc L)"
    and "dv = tex_div maxHeight (imageHeight w)"
  shows "dv \<noteq> Some 0 \<and>
    (\<forall>q. fdiv (Some maxHeight) (Some (imageHeight w)) = Some q \<longrightarrow>
         dv = Some (if osg_round q = 0 then 1 else osg_round q)) \<and>
    tex_height_m_adj L = fdiv (Some maxHeight) dv \<and>
    (\<forall>d. dv = Some d \<longrightarrow> d \<noteq> 0 \<and> tex_height_m_adj L = Some (maxHeight / d)) \<and>
    (\<exists>t. texcoords r = Some t \<and> length t = 2 * length (concat (parts input)) \<and>
         (\<forall>k < length (concat (parts input)).
            tv (t ! (2 * k)) = Some 0 \<and>
            tv (t ! (2 * k + 1)) =
              fdiv (if isTiled w
                    then Some (- vlength (vsub (verts r ! (2 * k)) (verts r ! (2 * k + 1))))
                    else fneg (tex_height_m_adj L))
                (tex_height_m_adj L))) \<and>
    made_geom r = (concat (parts input) \<noteq> [])"
proof -
  have th: "tex_height_m L = imageHeight w" by (simp add: assms(2) mkLocals_def Let_def)
  have 1: "dv \<noteq> Some 0" by (simp add: assms(4) tex_div_not_0)
  have 2: "\<forall>q. fdiv (Some maxHeight) (Some (imageHeight w)) = Some q \<longrightarrow>
         dv = Some (if osg_round q = 0 then 1 else osg_round q)"
    by (simp add: assms(4) tex_div_clamp)
  have 3: "tex_height_m_adj L = fdiv (Some maxHeight) dv"
    by (simp add: tex_height_m_adj_def Let_def th assms(3,4))
  have 4: "\<forall>d. dv = Some d \<longrightarrow> d \<noteq> 0 \<and> tex_height_m_adj L = Some (maxHeight / d)"
    using 1 3 by (auto simp add: fdiv_def)
  obtain t where t: "texcoords r = Some t" "length t = 2 * length (concat (parts input))"
    using eg_texcoords_length [of input h ho flat wr wb wc rc w rs c] assms(1) by blast
  have 5: "\<forall>k < length (concat (parts input)).
      tv (t ! (2 * k)) = Some 0 \<and>
      tv (t ! (2 * k + 1)) =
        fdiv (if isTiled w
              then Some (- vlength (vsub (verts r ! (2 * k)) (verts r ! (2 * k + 1))))
              else fneg (tex_height_m_adj L))
          (tex_height_m_adj L)"
  proof (intro allI impI)
    fix k assume k: "k < length (concat (parts input))"
    let ?m = "concat (parts input) ! k"
    have v: "verts r ! (2 * k) = roofOut L ?m" "verts r ! Suc (2 * k) = baseOut L ?m"
      using eg_verts_nth [OF k, of h ho flat wr wb wc rc "Some w" rs c] assms(1,2)
      by simp_all
    have b: "baseV L ?m =
        fdiv (if isTiled w
              then Some (- vlength (vsub (verts r ! (2 * k)) (verts r ! (2 * k + 1))))
              else fneg (tex_height_m_adj L))
          (tex_height_m_adj L)"
      by (simp add: baseV_def v assms(2) locals_fields)
    show "tv (t ! (2 * k)) = Some 0 \<and>
      tv (t ! (2 * k + 1)) =
        fdiv (if isTiled w
              then Some (- vlength (vsub (verts r ! (2 * k)) (verts r ! (2 * k + 1))))
              else fneg (tex_height_m_adj L))
          (tex_height_m_adj L)"
      using eg_texV_nth [OF k, of h ho flat wr wb wc rc w rs c] assms(1,2) t(1) b
      by auto
  qed
  have 6: "made_geom r = (concat (parts input) \<noteq> [])"
    by (simp only: assms(1) eg_made_geom)
  show ?thesis using 1 2 3 4 5 6 t by blast
qed

text \<open>
  The guard at work: a triangle at elevation 0 extruded by height 0 has \<open>maxHeight = 0\<close>;
  the quotient rounds to 0, the divisor is 1 and the adjusted tile height is \<open>0 / 1\<close>.
  The six texture coordinates are written and the function returns true.
\<close>

theorem tex_height_guard_witness:
  "tex_div 0 1 = Some 1 \<and>
   tex_height_m_adj (mkLocals tri_polygon 0 0 False True False (Some stretch_skin) flat_cx) =
     Some 0 \<and>
   (\<exists>t. texcoords (extrudeGeometry tri_polygon 0 0 False True False white white
            (Some stretch_skin) None flat_cx) = Some t \<and> length t = 6 \<and>
        tv (t ! 0) = Some 0 \<and> tv (t ! 2) = Some 0 \<and> tv (t ! 4) = Some 0) \<and>
   made_geom (extrudeGeometry tri_polygon 0 0 False True False white white
     (Some stretch_skin) None flat_cx)"
proof -
  let ?r = "extrudeGeometry tri_polygon 0 0 False True False white white
     (Some stretch_skin) None flat_cx"
  let ?L = "mkLocals tri_polygon 0 0 False True False (Some stretch_skin) flat_cx"
  have m: "(0::real) = targetLen ?L - vz (minLoc ?L)"
    by (simp add: locals_fields tri_polygon_def zfinder_tri_0)
  have i: "imageHeight stretch_skin = 1" by (simp add: stretch_skin_def)
  have q: "fdiv (Some 0) (Some 1) = Some 0" by (simp add: fdiv_def)
  have len: "length (concat (parts tri_polygon)) = 3" "concat (parts tri_polygon) \<noteq> []"
    by (simp_all add: tri_polygon_def tri_def)
  note g = tex_height_guard [OF refl refl m refl, of white white None, unfolded i len]
  have g2: "\<forall>q. fdiv (Some 0) (Some 1) = Some q \<longrightarrow>
      tex_div 0 1 = Some (if osg_round q = 0 then 1 else osg_round q)"
    using g by blast
  have d: "tex_div 0 1 = Some 1"
    using g2 [rule_format, OF q] by (simp add: osg_round_0)
  have g4: "\<forall>d. tex_div 0 1 = Some d \<longrightarrow> d \<noteq> 0 \<and> tex_height_m_adj ?L = Some (0 / d)"
    using g by blast
  have a: "tex_height_m_adj ?L = Some 0"
    using g4 [rule_format, OF d] by simp
  obtain t where t: "texcoords ?r = Some t" "length t = 2 * 3"
    "\<forall>k<3. tv (t ! (2 * k)) = Some 0"
    using g by blast
  have "tv (t ! (2 * 0)) = Some 0" "tv (t ! (2 * 1)) = Some 0" "tv (t ! (2 * 2)) = Some 0"
    using t(3) [rule_format, of 0] t(3) [rule_format, of 1] t(3) [rule_format, of 2]
    by simp_all
  then have "\<exists>t. texcoords ?r = Some t \<and> length t = 6 \<and>
        tv (t ! 0) = Some 0 \<and> tv (t ! 2) = Some 0 \<and> tv (t ! 4) = Some 0"
    using t(1,2) by simp
  moreover have "made_geom ?r"
  proof -
    have "made_geom ?r = (concat (parts tri_polygon) \<noteq> [])" using g by blast
    then show ?thesis using len(2) by blast
  qed
  ultimately show ?thesis using d a by simp
qed

text \<open>
  At that input the base V coordinates are \<open>- 0 / 0\<close>: not finite numbers (a NaN in the
  arithmetic of the code), next to the roof V coordinates 0.
\<close>

lemma zero_height_v:
  "map_option (map tv)
     (texcoords (extrudeGeometry tri_polygon 0 0 False True False white white
        (Some stretch_skin) None flat_cx)) =
     Some [Some 0, None, Some 0, None, Some 0, None]"
proof -
  have a: "tex_height_m_adj (mkLocals tri_polygon 0 0 False True False (Some stretch_skin) flat_cx) =
     Some 0"
    by (simp add: tex_height_m_adj_def tex_div_def fdiv_def mkLocals_def tri_polygon_def
        zfinder_tri_0 osg_round_0 Let_def stretch_skin_def)
  have p: "concat (parts tri_polygon) = tri" by (simp add: tri_polygon_def)
  have s: "\<not> tex_repeats_y (mkLocals tri_polygon 0 0 False True False (Some stretch_skin) flat_cx)"
    by (simp add: locals_fields stretch_skin_def)
  show ?thesis
    by (simp add: eg_texV p tri_def vPair_def baseV_def a s fdiv_def fneg_def)
qed

text \<open>
  Claim C5, as amended.  For a shape of at least two points, \<open>getApparentRotation\<close>
  returns \<open>atan2 dy dx\<close> of the first edge of maximum squared length in scan order (the
  closing edge included), oriented so that the first endpoint is the one with the
  strictly smaller \<open>x\<close>: when the two \<open>x\<close> coordinates are equal the endpoints are
  swapped, not kept.  (When every edge has length zero the code retains no edge and
  returns \<open>atan2 0 0 = 0\<close>, which is also the angle of the first edge.)
\<close>

theorem apparent_rotation:
  assumes "2 \<le> length geom"
  shows "\<exists>n. first_longest (ConstSegmentIterator geom True) = Some n \<and>
    getApparentRotation geom = angle_of (orient_strict n)"
  using rotation_of_first_longest [OF segments_nonempty [OF assms]]
  by (simp add: getApparentRotation_alt)


theorem apparent_rotation_witness:
  "first_longest (ConstSegmentIterator unit_square True) = Some (Vec3 0 0 0, Vec3 1 0 0) \<and>
   getApparentRotation unit_square = 0"
proof -
  have l: "2 \<le> length unit_square" by (simp add: unit_square_def)
  have f: "first_longest (ConstSegmentIterator unit_square True) = Some (Vec3 0 0 0, Vec3 1 0 0)"
    by (simp add: first_longest_def ConstSegmentIterator_def unit_square_def seg_len2_def
        length2_def vsub_def)
  have a: "angle_of (orient_strict (Vec3 0 0 0, Vec3 1 0 0)) = 0"
    by (simp add: angle_of_def orient_strict_def atan2_def)
  show ?thesis using apparent_rotation [OF l] f a by simp
qed

text \<open>
  The claim C5 as it was stated fails on a longest edge whose endpoints have the same
  \<open>x\<close>: for the shape \<open>(0,0,0), (0,2,0), (1,1,0)\<close> the longest edge is the first one,
  scanned upwards.  Kept in its order it has the angle \<open>pi / 2\<close>; the code swaps it
  and returns \<open>- pi / 2\<close>.
\<close>

theorem tie_orientation_counterexample:
  "getApparentRotation upright = - (pi / 2) \<and>
   getApparentRotation_spec upright = Some (pi / 2) \<and>
   Some (getApparentRotation upright) \<noteq> getApparentRotation_spec upright"
proof -
  have c: "getApparentRotation upright = - (pi / 2)"
    by (simp add: getApparentRotation_def ConstSegmentIterator_def upright_def longer_def
        length2_def vsub_def zero3_def atan2_def Let_def)
  have f: "first_longest (ConstSegmentIterator upright True) = Some (Vec3 0 0 0, Vec3 0 2 0)"
    by (simp add: first_longest_def ConstSegmentIterator_def upright_def seg_len2_def
        length2_def vsub_def)
  have s: "getApparentRotation_spec upright = Some (pi / 2)"
    by (simp add: getApparentRotation_spec_def f angle_of_def orient_keep_ties_def atan2_def)
  have "- (pi / 2) \<noteq> pi / 2" using pi_gt_zero by linarith
  then show ?thesis using c s by simp
qed

text \<open>
  Claim C8.  When the style of the filter has no extrusion symbol, \<open>push\<close> returns a new
  group without children, for every list of features, and adds the warning to the log.
  When it has one and the list of features is empty, \<open>push\<close> returns the delocalizing
  parent (a group or a matrix transform) without children, passed through the optimizer
  when geometry is merged.
\<close>

theorem push_empty_container:
  assumes "cache_ok f"
  shows "(st_extrusion (style f) = None \<longrightarrow>
      fst (push K input context f) = Group [] \<and>
      messages (snd (push K input context f)) = messages f @ [missing_symbology]) \<and>
    (st_extrusion (style f) \<noteq> None \<longrightarrow>
      (\<exists>g. (g = Group [] \<or> (\<exists>m. g = MatrixTransform m [])) \<and>
        fst (push K [] context f) = (if mergeGeometry f then optimize K g else g)))"
proof -
  have e: "extrusionSymbol (reset context f) = st_extrusion (style f)"
    using assms by (rule reset_extrusionSymbol)
  have 1: "st_extrusion (style f) = None \<Longrightarrow>
      fst (push K input context f) = Group [] \<and>
      messages (snd (push K input context f)) = messages f @ [missing_symbology]"
    using e by (simp add: push_missing reset_fields)
  have 2: "st_extrusion (style f) \<noteq> None \<Longrightarrow>
      (\<exists>g. (g = Group [] \<or> (\<exists>m. g = MatrixTransform m [])) \<and>
        fst (push K [] context f) = (if mergeGeometry f then optimize K g else g))"
    using e push_nil [of "context" f K] by simp
  show ?thesis using 1 2 by blast
qed


theorem push_empty_container_witness:
  "fst (push plain_collaborators [tri_feature] flat_cx (newFilter plain_style)) = Group [] \<and>
   messages (snd (push plain_collaborators [tri_feature] flat_cx (newFilter plain_style))) =
     [missing_symbology] \<and>
   (fst (push plain_collaborators [] flat_cx (setStyle extrusion_style (newFilter plain_style))) =
      Group [] \<or>
    (\<exists>m. fst (push plain_collaborators [] flat_cx
              (setStyle extrusion_style (newFilter plain_style))) = MatrixTransform m []))"
proof -
  have a: "st_extrusion (style (newFilter plain_style)) = None"
    "messages (newFilter plain_style) = []"
    by (simp_all add: newFilter_def plain_style_def)
  have b: "st_extrusion (style (setStyle extrusion_style (newFilter plain_style))) \<noteq> None"
    by (simp add: setStyle_def extrusion_style_def)
  have o: "optimize plain_collaborators = (\<lambda>n. n)"
    by (simp add: plain_collaborators_def)
  show ?thesis
    using push_empty_container [OF cache_ok_newFilter, of plain_style plain_collaborators
        "[tri_feature]" flat_cx]
      push_empty_container [OF cache_ok_setStyle, of extrusion_style "newFilter plain_style"
        plain_collaborators "[tri_feature]" flat_cx]
      a b
    by (auto simp add: o)
qed

end
